theory Spec2Isabelle
  imports Complex_Main "HOL-Library.AList"
begin

section \<open>Conventions of the embedding\<close>

text \<open>
  The sources are \<^verbatim>\<open>audio_engine.py\<close>, \<^verbatim>\<open>track_manager.py\<close> and
  \<^verbatim>\<open>project_manager.py\<close>. Audio samples, gains and volumes are Python or
  NumPy floats; they are embedded as \<^typ>\<open>real\<close>, so every statement below is about the
  exact arithmetic the floating-point code approximates. Track numbers are Python integers
  (\<^typ>\<open>int\<close>); sample counts and positions are never negative and are \<^typ>\<open>nat\<close>.
  A Python exception is a value of the type \<open>error\<close>, and a function that may raise returns
  \<open>error + 'a\<close>. Console output is left out, except where a claim speaks of it.
\<close>

datatype error = KeyError | ValueError | IndexError | ZeroDivisionError | OSError

subsection \<open>Python's \<^verbatim>\<open>str\<close> and \<^verbatim>\<open>int\<close> on decimal integers\<close>

definition digit_char :: "nat \<Rightarrow> char" where
  "digit_char d = ''0123456789'' ! d"

fun str_nat :: "nat \<Rightarrow> string" where
  "str_nat n = (if n < 10 then [digit_char n] else str_nat (n div 10) @ [digit_char (n mod 10)])"

declare str_nat.simps [simp del]

definition py_str :: "int \<Rightarrow> string" where
  "py_str i = (if i < 0 then CHR ''-'' # str_nat (nat (- i)) else str_nat (nat i))"

definition digit_val :: "char \<Rightarrow> nat option" where
  "digit_val c = map_of (zip ''0123456789'' [0, 1, 2, 3, 4, 5, 6, 7, 8, 9]) c"

fun digits_val :: "nat \<Rightarrow> string \<Rightarrow> nat option" where
  "digits_val acc [] = Some acc"
| "digits_val acc (c # cs) =
     (case digit_val c of None \<Rightarrow> None | Some d \<Rightarrow> digits_val (acc * 10 + d) cs)"

text \<open>
  \<^verbatim>\<open>int(s)\<close> on a string: an optional sign followed by at least one decimal digit;
  anything else raises ValueError. (Python also accepts surrounding blanks and underscores
  between digits; the keys that \<^verbatim>\<open>json.dump\<close> writes never have them.)
\<close>

definition py_int :: "string \<Rightarrow> error + int" where
  "py_int s =
     (case s of
        [] \<Rightarrow> Inl ValueError
      | c # cs \<Rightarrow>
          if c = CHR ''-'' \<or> c = CHR ''+'' then
            (if cs = [] then Inl ValueError
             else case digits_val 0 cs of
                    None \<Rightarrow> Inl ValueError
                  | Some n \<Rightarrow> Inr (if c = CHR ''-'' then - int n else int n))
          else (case digits_val 0 s of None \<Rightarrow> Inl ValueError | Some n \<Rightarrow> Inr (int n)))"

section \<open>Effect units\<close>

subsection \<open>SimpleCompressor\<close>

record compressor =
  threshold :: real
  ratio :: real
  attack_coeff :: real
  release_coeff :: real
  envelope :: real

text \<open>
  The constructor; its defaults in the source are 0.8, 10.0, 5.0, 50.0 and 44100. The
  arithmetic of the compressor is the exact one: the rounding of the floating-point
  operations, which depends on the sample type of the block, is not part of the embedding,
  and no statement below is about the sample values the compressor computes. (With a zero
  attack time, release time or sample rate the constructor's division raises in Python; no
  caller passes one.)
\<close>

definition SimpleCompressor :: "real \<Rightarrow> real \<Rightarrow> real \<Rightarrow> real \<Rightarrow> nat \<Rightarrow> compressor" where
  "SimpleCompressor thr rat attack_ms release_ms sr =
     \<lparr>threshold = thr, ratio = rat,
      attack_coeff = exp (- 1 / (attack_ms * 0.001 * real sr)),
      release_coeff = exp (- 1 / (release_ms * 0.001 * real sr)),
      envelope = 0\<rparr>"

definition follow_envelope :: "compressor \<Rightarrow> real \<Rightarrow> real" where
  "follow_envelope c x =
     (let input_level = \<bar>x\<bar>; target_envelope = input_level
      in if target_envelope > envelope c
         then envelope c + (target_envelope - envelope c) * (1 - attack_coeff c)
         else envelope c + (target_envelope - envelope c) * (1 - release_coeff c))"

definition gain_reduction :: "compressor \<Rightarrow> real \<Rightarrow> real" where
  "gain_reduction c env =
     (if env > threshold c then
        (let over_amount = env - threshold c;
             compressed_amount = over_amount / ratio c;
             target_level = threshold c + compressed_amount
         in if env > 0 then target_level / env else 1)
      else 1)"

definition makeup_gain :: "compressor \<Rightarrow> real" where
  "makeup_gain c = 1 + (1 - 1 / ratio c) * (threshold c / 1)"

text \<open>
  One pass of the loop body of \<^verbatim>\<open>process\<close>. \<^verbatim>\<open>1.0/self.ratio\<close> divides two Python
  floats and raises ZeroDivisionError when the ratio is zero.
\<close>

definition compress_sample :: "compressor \<Rightarrow> real \<Rightarrow> error + (compressor \<times> real)" where
  "compress_sample c x =
     (let env = follow_envelope c x;
          gain = gain_reduction c env
      in if ratio c = 0 then Inl ZeroDivisionError
         else Inr (c\<lparr>envelope := env\<rparr>, x * gain * makeup_gain c))"

fun compress_loop :: "compressor \<Rightarrow> real list \<Rightarrow> error + (compressor \<times> real list)" where
  "compress_loop c [] = Inr (c, [])"
| "compress_loop c (x # xs) =
     (case compress_sample c x of
        Inl e \<Rightarrow> Inl e
      | Inr (c', y) \<Rightarrow>
          (case compress_loop c' xs of
             Inl e \<Rightarrow> Inl e
           | Inr (c'', ys) \<Rightarrow> Inr (c'', y # ys)))"

definition compressor_process :: "compressor \<Rightarrow> real list \<Rightarrow> error + (compressor \<times> real list)" where
  "compressor_process c audio =
     (if length audio = 0 then Inr (c, audio) else compress_loop c audio)"

subsection \<open>SimpleReverb\<close>

record delay_line =
  buffer :: "real list"
  index :: nat
  feedback :: real

record reverb =
  wet :: real
  dry :: real
  delay_lines :: "delay_line list"
  feedback_gains :: "real list"

text \<open>
  The constructor. The argument \<open>wet0\<close> is stored and then overwritten in both branches.
  \<^verbatim>\<open>zip\<close> stops at the shorter of \<open>delay_times\<close> and \<open>feedback_gains\<close>, and
  \<^verbatim>\<open>int(delay_time * sample_rate)\<close> truncates a non-negative product.
\<close>

definition SimpleReverb :: "real \<Rightarrow> real \<Rightarrow> real \<Rightarrow> nat \<Rightarrow> reverb" where
  "SimpleReverb room_size damping wet0 sr =
     (let delay_times = (if room_size > 0.8
                         then [0.089, 0.11, 0.127, 0.135, 0.22, 0.254]
                         else [0.015, 0.023, 0.035, 0.047]);
          w = (if room_size > 0.8 then 0.4 else 0.5);
          fbs = [0.7, 0.6, 0.5, 0.4]
      in \<lparr>wet = w, dry = 1 - w,
          delay_lines =
            map (\<lambda>(delay_time, fb_gain).
                   \<lparr>buffer = replicate (nat \<lfloor>delay_time * real sr\<rfloor>) 0,
                    index = 0,
                    feedback = fb_gain * (1 - damping)\<rparr>)
                (zip delay_times fbs),
          feedback_gains = fbs\<rparr>)"

text \<open>
  The inner loop over the delay lines for one input sample: reads the delayed sample (an
  empty buffer raises IndexError), writes the sample with feedback and advances the index.
  It returns the updated lines and the sum of the delayed samples.
\<close>

fun reverb_lines :: "real \<Rightarrow> delay_line list \<Rightarrow> error + (delay_line list \<times> real)" where
  "reverb_lines x [] = Inr ([], 0)"
| "reverb_lines x (dl # dls) =
     (if index dl < length (buffer dl) then
        (let delayed = buffer dl ! index dl;
             dl' = dl\<lparr>buffer := (buffer dl)[index dl := x + delayed * feedback dl],
                      index := (index dl + 1) mod length (buffer dl)\<rparr>
         in case reverb_lines x dls of
              Inl e \<Rightarrow> Inl e
            | Inr (dls', s) \<Rightarrow> Inr (dl' # dls', delayed + s))
      else Inl IndexError)"

fun reverb_loop :: "reverb \<Rightarrow> real list \<Rightarrow> error + (reverb \<times> real list)" where
  "reverb_loop r [] = Inr (r, [])"
| "reverb_loop r (x # xs) =
     (case reverb_lines x (delay_lines r) of
        Inl e \<Rightarrow> Inl e
      | Inr (dls, wet_sum) \<Rightarrow>
          (case reverb_loop (r\<lparr>delay_lines := dls\<rparr>) xs of
             Inl e \<Rightarrow> Inl e
           | Inr (r', ys) \<Rightarrow> Inr (r', (x * dry r + wet_sum * wet r * 0.25) # ys)))"

definition reverb_process :: "reverb \<Rightarrow> real list \<Rightarrow> error + (reverb \<times> real list)" where
  "reverb_process r audio =
     (if length audio = 0 then Inr (r, audio) else reverb_loop r audio)"

section \<open>Track state (track\_manager.py)\<close>

record track =
  number :: int
  is_armed :: bool
  is_muted :: bool
  volume :: real
  has_data :: bool
  name :: string

definition Track :: "int \<Rightarrow> track" where
  "Track n = \<lparr>number = n, is_armed = False, is_muted = False, volume = 1,
              has_data = False, name = ''Track '' @ py_str n\<rparr>"

definition arm :: "track \<Rightarrow> track" where
  "arm t = t\<lparr>is_armed := True\<rparr>"

definition disarm :: "track \<Rightarrow> track" where
  "disarm t = t\<lparr>is_armed := False\<rparr>"

definition toggle_mute :: "track \<Rightarrow> track \<times> bool" where
  "toggle_mute t = (t\<lparr>is_muted := \<not> is_muted t\<rparr>, \<not> is_muted t)"

definition set_volume :: "track \<Rightarrow> real \<Rightarrow> track" where
  "set_volume t v = t\<lparr>volume := max 0 (min 1 v)\<rparr>"

definition set_has_data :: "track \<Rightarrow> bool \<Rightarrow> track" where
  "set_has_data t b = t\<lparr>has_data := b\<rparr>"

text \<open>
  \<open>tracks\<close> is the dictionary \<^verbatim>\<open>self.tracks\<close> in insertion order; the Track objects
  it holds are reached through it only, so an update of a track is an update of its entry.
\<close>

record track_manager =
  num_tracks :: int
  tracks :: "(int \<times> track) list"
  armed_track :: "int option"

definition TrackManager :: "int \<Rightarrow> track_manager" where
  "TrackManager n = \<lparr>num_tracks = n, tracks = map (\<lambda>i. (i, Track i)) [1..n],
                     armed_track = None\<rparr>"

definition get_track :: "track_manager \<Rightarrow> int \<Rightarrow> track option" where
  "get_track tm track_number = map_of (tracks tm) track_number"

text \<open>
  \<^verbatim>\<open>arm_track\<close> disarms every track before it looks the number up. The statements after
  its two \<^verbatim>\<open>return\<close>s never run and are left out.
\<close>

definition arm_track :: "track_manager \<Rightarrow> int \<Rightarrow> track_manager \<times> bool" where
  "arm_track tm track_number =
     (let ts = map (\<lambda>(k, t). (k, disarm t)) (tracks tm)
      in if map_of ts track_number \<noteq> None
         then (tm\<lparr>tracks := AList.map_entry track_number arm ts,
                  armed_track := Some track_number\<rparr>, True)
         else (tm\<lparr>tracks := ts\<rparr>, False))"

definition disarm_all_tracks :: "track_manager \<Rightarrow> track_manager" where
  "disarm_all_tracks tm =
     tm\<lparr>tracks := map (\<lambda>(k, t). (k, disarm t)) (tracks tm), armed_track := None\<rparr>"

definition get_armed_track :: "track_manager \<Rightarrow> int option" where
  "get_armed_track tm = armed_track tm"

definition toggle_track_mute :: "track_manager \<Rightarrow> int \<Rightarrow> track_manager \<times> bool" where
  "toggle_track_mute tm track_number =
     (case map_of (tracks tm) track_number of
        Some t \<Rightarrow> (tm\<lparr>tracks := AList.map_entry track_number (\<lambda>t. fst (toggle_mute t)) (tracks tm)\<rparr>,
                   snd (toggle_mute t))
      | None \<Rightarrow> (tm, False))"

definition tm_set_track_volume :: "track_manager \<Rightarrow> int \<Rightarrow> real \<Rightarrow> track_manager" where
  "tm_set_track_volume tm track_number v =
     (if map_of (tracks tm) track_number \<noteq> None
      then tm\<lparr>tracks := AList.map_entry track_number (\<lambda>t. set_volume t v) (tracks tm)\<rparr>
      else tm)"

definition mark_track_has_data :: "track_manager \<Rightarrow> int \<Rightarrow> bool \<Rightarrow> track_manager" where
  "mark_track_has_data tm track_number b =
     (if map_of (tracks tm) track_number \<noteq> None
      then tm\<lparr>tracks := AList.map_entry track_number (\<lambda>t. set_has_data t b) (tracks tm)\<rparr>
      else tm)"

definition tm_clear_track :: "track_manager \<Rightarrow> int \<Rightarrow> track_manager" where
  "tm_clear_track tm track_number =
     (if map_of (tracks tm) track_number \<noteq> None
      then tm\<lparr>tracks := AList.map_entry track_number
                           (\<lambda>t. (disarm (set_has_data t False))\<lparr>is_muted := False, volume := 1\<rparr>)
                           (tracks tm),
               armed_track := (if armed_track tm = Some track_number then None
                               else armed_track tm)\<rparr>
      else tm)"

definition tm_get_playable_tracks :: "track_manager \<Rightarrow> int list" where
  "tm_get_playable_tracks tm =
     map fst (filter (\<lambda>(track_num, t). has_data t \<and> \<not> is_muted t) (tracks tm))"

definition reset_all_tracks :: "track_manager \<Rightarrow> track_manager" where
  "reset_all_tracks tm = fold (\<lambda>track_num m. tm_clear_track m track_num) (map fst (tracks tm)) tm"

section \<open>The audio engine (audio\_engine.py)\<close>

subsection \<open>State\<close>

text \<open>The dictionary \<^verbatim>\<open>fx_processors[track_num]\<close>: each effect is present or absent.\<close>

record fx_chain =
  fx_compressor :: "compressor option"
  fx_reverb :: "reverb option"

text \<open>
  The attributes of \<^verbatim>\<open>AudioEngine\<close> that the modelled methods read or write.
  \<open>stream_active\<close> stands for \<^verbatim>\<open>self.stream\<close> being open and active. \<open>track_data\<close> keeps
  the insertion order of the dictionary, because \<^verbatim>\<open>get_playable_tracks\<close> lists its keys;
  the other dictionaries are only looked up, stored to or updated entry by entry.
\<close>

record audio_engine =
  sample_rate :: nat
  buffer_size :: nat
  recordings_dir :: string
  stream_active :: bool
  is_recording :: bool
  recording_track :: "int option"
  recording_buffer :: "real list"
  is_playing :: bool
  playback_position :: nat
  playback_start_time :: real
  track_data :: "(int \<times> real list) list"
  track_lengths :: "int \<rightharpoonup> nat"
  track_volumes :: "int \<rightharpoonup> real"
  track_fx :: "int \<rightharpoonup> string"
  fx_processors :: "int \<rightharpoonup> fx_chain"
  track_levels :: "int \<rightharpoonup> real"
  track_peaks :: "int \<rightharpoonup> bool"
  peak_hold_time :: "int \<rightharpoonup> real"
  level_decay :: real
  peak_hold_duration :: real
  measured_latency_samples :: int
  measured_latency_ms :: real
  latency_calibrated :: bool
  metronome_enabled :: bool
  metronome_volume :: real
  bpm :: real
  samples_per_beat :: nat
  metronome_sound :: "real list"
  metronome_and_sound :: "real list"
  master_volume_gain :: real

text \<open>
  \<^verbatim>\<open>int(self.sample_rate / beats_per_second)\<close> is taken of the exact quotient; the
  floating-point quotient can fall just below an integer that the exact one reaches (not at
  120 BPM, where both are 22050).
\<close>

definition calculate_metronome_timing :: "audio_engine \<Rightarrow> audio_engine" where
  "calculate_metronome_timing e =
     (if bpm e > 0 then
        (let beats_per_second = bpm e / 60
         in e\<lparr>samples_per_beat := nat \<lfloor>real (sample_rate e) / beats_per_second\<rfloor>\<rparr>)
      else e\<lparr>samples_per_beat := sample_rate e\<rparr>)"

text \<open>
  The constructor. \<^verbatim>\<open>initialize_devices\<close> only queries the sound devices, and
  \<^verbatim>\<open>initialize_metronome\<close> loads or generates the two click waveforms: they are the
  arguments \<open>click\<close> (\<^verbatim>\<open>metronome_sound\<close>) and \<open>accent\<close> (\<^verbatim>\<open>metronome_and_sound\<close>).
\<close>

definition AudioEngine :: "real list \<Rightarrow> real list \<Rightarrow> audio_engine" where
  "AudioEngine click accent =
     calculate_metronome_timing
       \<lparr>sample_rate = 44100, buffer_size = 256,
        recordings_dir = ''recordings/Default Project'',
        stream_active = False,
        is_recording = False, recording_track = None, recording_buffer = [],
        is_playing = False, playback_position = 0, playback_start_time = 0,
        track_data = [], track_lengths = Map.empty,
        track_volumes = (\<lambda>i. if 1 \<le> i \<and> i < 9 then Some 0.75 else None),
        track_fx = (\<lambda>i. if 1 \<le> i \<and> i < 9 then Some ''none'' else None),
        fx_processors = (\<lambda>i. if 1 \<le> i \<and> i < 9
                              then Some \<lparr>fx_compressor = None, fx_reverb = None\<rparr> else None),
        track_levels = (\<lambda>i. if 1 \<le> i \<and> i < 9 then Some 0 else None),
        track_peaks = (\<lambda>i. if 1 \<le> i \<and> i < 9 then Some False else None),
        peak_hold_time = (\<lambda>i. if 1 \<le> i \<and> i < 9 then Some 0 else None),
        level_decay = 0.85, peak_hold_duration = 1,
        measured_latency_samples = 0, measured_latency_ms = 0, latency_calibrated = False,
        metronome_enabled = False, metronome_volume = 0.5, bpm = 120,
        samples_per_beat = 0,
        metronome_sound = click, metronome_and_sound = accent,
        master_volume_gain = 1\<rparr>"

subsection \<open>Track settings and effects\<close>

definition set_master_volume :: "audio_engine \<Rightarrow> real \<Rightarrow> audio_engine" where
  "set_master_volume e linear_gain = e\<lparr>master_volume_gain := max 0.001 (min 10 linear_gain)\<rparr>"

definition set_track_volume :: "audio_engine \<Rightarrow> int \<Rightarrow> real \<Rightarrow> audio_engine" where
  "set_track_volume e track_num v =
     e\<lparr>track_volumes := (track_volumes e)(track_num \<mapsto> max 0 (min 1 v))\<rparr>"

definition get_track_volume :: "audio_engine \<Rightarrow> int \<Rightarrow> real" where
  "get_track_volume e track_num =
     (case track_volumes e track_num of Some v \<Rightarrow> v | None \<Rightarrow> 0.75)"

text \<open>The processors are built with the constructors' default attack, release, damping and
  sample rate (5 ms, 50 ms, 0.5, 44100).\<close>

definition build_fx :: "string \<Rightarrow> fx_chain" where
  "build_fx fx_type =
     (if fx_type = ''wide_hall'' then
        \<lparr>fx_compressor = Some (SimpleCompressor 0.7 3 5 50 44100),
         fx_reverb = Some (SimpleReverb 0.9 0.5 0.4 44100)\<rparr>
      else if fx_type = ''studio'' then
        \<lparr>fx_compressor = Some (SimpleCompressor 0.6 4 5 50 44100),
         fx_reverb = Some (SimpleReverb 0.5 0.5 0.25 44100)\<rparr>
      else if fx_type = ''compressor'' then
        \<lparr>fx_compressor = Some (SimpleCompressor 0.5 6 5 50 44100), fx_reverb = None\<rparr>
      else \<lparr>fx_compressor = None, fx_reverb = None\<rparr>)"

definition set_track_fx :: "audio_engine \<Rightarrow> int \<Rightarrow> string \<Rightarrow> audio_engine" where
  "set_track_fx e track_num fx_type =
     e\<lparr>track_fx := (track_fx e)(track_num \<mapsto> fx_type),
       fx_processors := (fx_processors e)(track_num \<mapsto> build_fx fx_type)\<rparr>"

definition get_track_fx :: "audio_engine \<Rightarrow> int \<Rightarrow> string" where
  "get_track_fx e track_num =
     (case track_fx e track_num of Some fx \<Rightarrow> fx | None \<Rightarrow> ''none'')"

definition process_track_fx ::
  "audio_engine \<Rightarrow> int \<Rightarrow> real list \<Rightarrow> error + (audio_engine \<times> real list)" where
  "process_track_fx e track_num audio_data =
     (case fx_processors e track_num of
        None \<Rightarrow> Inr (e, audio_data)
      | Some processors \<Rightarrow>
          if fx_compressor processors = None \<and> fx_reverb processors = None
          then Inr (e, audio_data)
          else
            (case (case fx_compressor processors of
                     None \<Rightarrow> Inr (processors, audio_data)
                   | Some c \<Rightarrow>
                       (case compressor_process c audio_data of
                          Inl err \<Rightarrow> Inl err
                        | Inr (c', out) \<Rightarrow> Inr (processors\<lparr>fx_compressor := Some c'\<rparr>, out))) of
               Inl err \<Rightarrow> Inl err
             | Inr (p1, processed) \<Rightarrow>
                 (case (case fx_reverb p1 of
                          None \<Rightarrow> Inr (p1, processed)
                        | Some r \<Rightarrow>
                            (case reverb_process r processed of
                               Inl err \<Rightarrow> Inl err
                             | Inr (r', out) \<Rightarrow> Inr (p1\<lparr>fx_reverb := Some r'\<rparr>, out))) of
                    Inl err \<Rightarrow> Inl err
                  | Inr (p2, processed') \<Rightarrow>
                      Inr (e\<lparr>fx_processors := (fx_processors e)(track_num \<mapsto> p2)\<rparr>,
                           processed'))))"

definition has_track_data :: "audio_engine \<Rightarrow> int \<Rightarrow> bool" where
  "has_track_data e track_number =
     (case map_of (track_data e) track_number of
        Some d \<Rightarrow> length d > 0
      | None \<Rightarrow> False)"

definition clear_track :: "audio_engine \<Rightarrow> int \<Rightarrow> audio_engine" where
  "clear_track e track_number =
     e\<lparr>track_data := AList.delete track_number (track_data e),
       track_lengths := (track_lengths e)(track_number := None),
       track_levels := (if track_levels e track_number \<noteq> None
                        then (track_levels e)(track_number \<mapsto> 0) else track_levels e),
       track_peaks := (if track_peaks e track_number \<noteq> None
                       then (track_peaks e)(track_number \<mapsto> False) else track_peaks e)\<rparr>"

subsection \<open>Metronome\<close>

definition set_bpm :: "audio_engine \<Rightarrow> real \<Rightarrow> audio_engine" where
  "set_bpm e b = calculate_metronome_timing (e\<lparr>bpm := max 60 (min 200 b)\<rparr>)"

definition set_metronome :: "audio_engine \<Rightarrow> bool \<Rightarrow> audio_engine" where
  "set_metronome e enabled = e\<lparr>metronome_enabled := enabled\<rparr>"

definition set_metronome_volume :: "audio_engine \<Rightarrow> real \<Rightarrow> audio_engine" where
  "set_metronome_volume e v = e\<lparr>metronome_volume := max 0 (min 1 v)\<rparr>"

definition get_effective_metronome_volume :: "audio_engine \<Rightarrow> real" where
  "get_effective_metronome_volume e =
     (if metronome_volume e = 0 then 0 else metronome_volume e * 4)"

text \<open>
  The loop of \<^verbatim>\<open>add_metronome_optimized\<close> over the sample indices of the frame. The
  outer test compares the beat position with the length of \<^verbatim>\<open>metronome_sound\<close>, whichever
  waveform is chosen afterwards; \<^verbatim>\<open>hasattr(self, 'metronome_and_sound')\<close> is always true.
  Writing \<^verbatim>\<open>output[i, 0]\<close> beyond the rows of \<open>output\<close> raises IndexError.
\<close>

fun metronome_loop ::
  "audio_engine \<Rightarrow> real \<Rightarrow> nat list \<Rightarrow> (real \<times> real) list \<Rightarrow> error + (real \<times> real) list" where
  "metronome_loop e effective_volume [] output = Inr output"
| "metronome_loop e effective_volume (i # is) output =
     (let beat_position = (playback_position e + i) mod samples_per_beat e
      in if beat_position < length (metronome_sound e) then
           (let current_sample = playback_position e + i;
                current_beat = (current_sample div samples_per_beat e) mod 4 + 1;
                sound_to_use = (if current_beat = 1 then metronome_and_sound e
                                else metronome_sound e)
            in if beat_position < length sound_to_use then
                 (let click_sample = sound_to_use ! beat_position * effective_volume
                  in if i < length output
                     then metronome_loop e effective_volume is
                            (output[i := (fst (output ! i) + click_sample,
                                          snd (output ! i) + click_sample)])
                     else Inl IndexError)
               else metronome_loop e effective_volume is output)
         else metronome_loop e effective_volume is output)"

definition add_metronome_optimized ::
  "audio_engine \<Rightarrow> (real \<times> real) list \<Rightarrow> nat \<Rightarrow> error + (real \<times> real) list" where
  "add_metronome_optimized e output frames =
     (let effective_volume = get_effective_metronome_volume e
      in if effective_volume = 0 \<or> samples_per_beat e = 0 then Inr output
         else metronome_loop e effective_volume [0..<frames] output)"

subsection \<open>Level metering\<close>

text \<open>\<^verbatim>\<open>np.max(np.abs(a))\<close>: the largest magnitude; an empty array raises ValueError.\<close>

definition peak_abs :: "real list \<Rightarrow> error + real" where
  "peak_abs a = (case a of [] \<Rightarrow> Inl ValueError | x # xs \<Rightarrow> Inr (fold max (map abs xs) \<bar>x\<bar>))"

text \<open>\<open>now\<close> is the reading of \<^verbatim>\<open>time.time()\<close>.\<close>

definition update_track_level :: "audio_engine \<Rightarrow> int \<Rightarrow> real \<Rightarrow> real \<Rightarrow> error + audio_engine" where
  "update_track_level e track_num new_level now =
     (let e1 = (if track_levels e track_num = None
                then e\<lparr>track_levels := (track_levels e)(track_num \<mapsto> 0),
                       track_peaks := (track_peaks e)(track_num \<mapsto> False),
                       peak_hold_time := (peak_hold_time e)(track_num \<mapsto> 0)\<rparr>
                else e)
      in case track_levels e1 track_num of
           None \<Rightarrow> Inl KeyError
         | Some l \<Rightarrow>
             (let e2 = e1\<lparr>track_levels := (track_levels e1)(track_num \<mapsto> max l new_level)\<rparr>
              in if new_level \<ge> 1 then
                   Inr (e2\<lparr>track_peaks := (track_peaks e2)(track_num \<mapsto> True),
                           peak_hold_time := (peak_hold_time e2)(track_num \<mapsto> now)\<rparr>)
                 else
                   (case peak_hold_time e2 track_num of
                      None \<Rightarrow> Inl KeyError
                    | Some held \<Rightarrow>
                        if now - held > peak_hold_duration e2
                        then Inr (e2\<lparr>track_peaks := (track_peaks e2)(track_num \<mapsto> False)\<rparr>)
                        else Inr e2)))"

definition get_track_level :: "audio_engine \<Rightarrow> int \<Rightarrow> real" where
  "get_track_level e track_num =
     (let level = (case track_levels e track_num of Some l \<Rightarrow> l | None \<Rightarrow> 0)
      in if level > 0.001 then level else 0)"

subsection \<open>The audio callback\<close>

text \<open>
  \<open>indata\<close> is the input block: its number of channels (\<^verbatim>\<open>indata.shape[1]\<close>) and its
  rows, one per frame. With more than one channel the callback takes channel 0, otherwise it
  flattens the block.
\<close>

definition mono_input :: "nat \<times> real list list \<Rightarrow> real list" where
  "mono_input indata =
     (if fst indata > 1 then map (\<lambda>row. row ! 0) (snd indata) else concat (snd indata))"

text \<open>
  The level update that the recording branch and the monitoring branch of the callback
  both contain: peak of the block, \<^verbatim>\<open>track_levels[track]\<close> (KeyError when the track has
  no level entry), then \<^verbatim>\<open>update_track_level\<close>.
\<close>

definition meter_input :: "audio_engine \<Rightarrow> int \<Rightarrow> real list \<Rightarrow> real \<Rightarrow> error + audio_engine" where
  "meter_input e track_num block now =
     (case peak_abs block of
        Inl err \<Rightarrow> Inl err
      | Inr input_level \<Rightarrow>
          (case track_levels e track_num of
             None \<Rightarrow> Inl KeyError
           | Some l \<Rightarrow>
               update_track_level
                 (e\<lparr>track_levels := (track_levels e)(track_num \<mapsto> max (l * 1) input_level)\<rparr>)
                 track_num input_level now))"

text \<open>The engine's reference to the track manager is the argument \<open>tm\<close> (None when unset).\<close>

definition capture_input ::
  "audio_engine \<Rightarrow> track_manager option \<Rightarrow> nat \<times> real list list \<Rightarrow> real \<Rightarrow> error + audio_engine" where
  "capture_input e tm indata now =
     (if is_recording e \<and> recording_track e \<noteq> None then
        (case recording_track e of
           None \<Rightarrow> Inr e
         | Some rt \<Rightarrow>
             meter_input (e\<lparr>recording_buffer := recording_buffer e @ mono_input indata\<rparr>)
               rt (mono_input indata) now)
      else if \<not> is_recording e then
        (let armed = (case tm of None \<Rightarrow> None | Some m \<Rightarrow> get_armed_track m)
         in case armed of
              None \<Rightarrow> Inr e
            | Some a \<Rightarrow> meter_input e a (mono_input indata) now)
      else Inr e)"

definition decay_levels :: "audio_engine \<Rightarrow> audio_engine" where
  "decay_levels e =
     e\<lparr>track_levels := (\<lambda>track_num. map_option (\<lambda>l. l * level_decay e) (track_levels e track_num))\<rparr>"

definition get_playable_tracks :: "audio_engine \<Rightarrow> track_manager option \<Rightarrow> int list" where
  "get_playable_tracks e tm =
     (case tm of None \<Rightarrow> map fst (track_data e) | Some m \<Rightarrow> tm_get_playable_tracks m)"

text \<open>\<^verbatim>\<open>mixed_output[:segment_len, c] += processed_segment\<close> on both channels.\<close>

definition mix_into :: "(real \<times> real) list \<Rightarrow> real list \<Rightarrow> (real \<times> real) list" where
  "mix_into mixed seg =
     map (\<lambda>((l, r), s). (l + s, r + s)) (zip (take (length seg) mixed) seg)
     @ drop (length seg) mixed"

text \<open>The body of the loop over the playable tracks, for one track.\<close>

definition mix_track ::
  "audio_engine \<Rightarrow> int \<Rightarrow> nat \<Rightarrow> (real \<times> real) list \<Rightarrow> real
     \<Rightarrow> error + (audio_engine \<times> (real \<times> real) list)" where
  "mix_track e track_num frames mixed now =
     (case map_of (track_data e) track_num of
        None \<Rightarrow> Inr (e, mixed)
      | Some data \<Rightarrow>
          (case track_lengths e track_num of
             None \<Rightarrow> Inl KeyError
           | Some track_len \<Rightarrow>
               if playback_position e < track_len then
                 (let remaining_samples = track_len - playback_position e;
                      samples_to_read = min frames remaining_samples;
                      track_segment = take samples_to_read (drop (playback_position e) data)
                  in if length track_segment > 0 then
                       (let track_volume = (case track_volumes e track_num of
                                              Some v \<Rightarrow> v | None \<Rightarrow> 0.75)
                        in case process_track_fx e track_num
                                  (map (\<lambda>s. s * track_volume) track_segment) of
                             Inl err \<Rightarrow> Inl err
                           | Inr (e1, processed_segment) \<Rightarrow>
                               (case peak_abs processed_segment of
                                  Inl err \<Rightarrow> Inl err
                                | Inr track_level \<Rightarrow>
                                    (case track_levels e1 track_num of
                                       None \<Rightarrow> Inl KeyError
                                     | Some l \<Rightarrow>
                                         (case update_track_level
                                                 (e1\<lparr>track_levels :=
                                                       (track_levels e1)(track_num \<mapsto> max l track_level)\<rparr>)
                                                 track_num track_level now of
                                            Inl err \<Rightarrow> Inl err
                                          | Inr e2 \<Rightarrow> Inr (e2, mix_into mixed processed_segment)))))
                     else Inr (e, mixed))
               else Inr (e, mixed)))"

fun mix_tracks ::
  "audio_engine \<Rightarrow> int list \<Rightarrow> nat \<Rightarrow> (real \<times> real) list \<Rightarrow> real
     \<Rightarrow> error + (audio_engine \<times> (real \<times> real) list)" where
  "mix_tracks e [] frames mixed now = Inr (e, mixed)"
| "mix_tracks e (track_num # rest) frames mixed now =
     (case mix_track e track_num frames mixed now of
        Inl err \<Rightarrow> Inl err
      | Inr (e1, mixed1) \<Rightarrow> mix_tracks e1 rest frames mixed1 now)"

text \<open>
  One invocation of \<^verbatim>\<open>audio_callback\<close>: the new state and the output block
  (\<^verbatim>\<open>outdata\<close>, one stereo pair per frame). An exception leaves the callback at once.
\<close>

definition audio_callback ::
  "audio_engine \<Rightarrow> track_manager option \<Rightarrow> nat \<times> real list list \<Rightarrow> nat \<Rightarrow> real
     \<Rightarrow> error + (audio_engine \<times> (real \<times> real) list)" where
  "audio_callback e tm indata frames now =
     (case capture_input e tm indata now of
        Inl err \<Rightarrow> Inl err
      | Inr e1 \<Rightarrow>
          (let e2 = decay_levels e1
           in if is_playing e2 then
                (case mix_tracks e2 (get_playable_tracks e2 tm) frames
                        (replicate frames (0, 0)) now of
                   Inl err \<Rightarrow> Inl err
                 | Inr (e3, mixed_output) \<Rightarrow>
                     (case (if metronome_enabled e3
                            then add_metronome_optimized e3 mixed_output frames
                            else Inr mixed_output) of
                        Inl err \<Rightarrow> Inl err
                      | Inr mixed1 \<Rightarrow>
                          (let mixed2 = (if master_volume_gain e3 \<noteq> 1
                                         then map (\<lambda>(l, r). (l * master_volume_gain e3,
                                                            r * master_volume_gain e3)) mixed1
                                         else mixed1)
                           in Inr (e3\<lparr>playback_position := playback_position e3 + frames\<rparr>,
                                   mixed2))))
              else Inr (e2, replicate frames (0, 0))))"

text \<open>
  Consecutive invocations of the callback, each with \<open>frames\<close> samples: one entry of
  \<open>calls\<close> per invocation, holding the track manager as it is then, the input block and
  the clock. No transport command runs between them.
\<close>

fun run_callbacks ::
  "audio_engine \<Rightarrow> nat \<Rightarrow> (track_manager option \<times> (nat \<times> real list list) \<times> real) list
     \<Rightarrow> error + audio_engine" where
  "run_callbacks e frames [] = Inr e"
| "run_callbacks e frames ((tm, indata, now) # calls) =
     (case audio_callback e tm indata frames now of
        Inl err \<Rightarrow> Inl err
      | Inr (e1, outdata) \<Rightarrow> run_callbacks e1 frames calls)"

subsection \<open>Transport\<close>

text \<open>
  \<open>stream_starts\<close> tells whether \<^verbatim>\<open>start_stream\<close> succeeds when the stream has to be
  opened; \<open>now\<close> is the clock.
\<close>

definition start_recording :: "audio_engine \<Rightarrow> int \<Rightarrow> bool \<Rightarrow> audio_engine \<times> bool" where
  "start_recording e track_number stream_starts =
     (if \<not> stream_active e \<and> \<not> stream_starts then (e, False)
      else (e\<lparr>stream_active := True, is_recording := True,
               recording_track := Some track_number, recording_buffer := []\<rparr>, True))"

definition start_playback :: "audio_engine \<Rightarrow> bool \<Rightarrow> real \<Rightarrow> audio_engine \<times> bool" where
  "start_playback e stream_starts now =
     (if \<not> stream_active e \<and> \<not> stream_starts then (e, False)
      else (e\<lparr>stream_active := True, is_playing := True, playback_position := 0,
               playback_start_time := now\<rparr>, True))"

definition pause_playback :: "audio_engine \<Rightarrow> audio_engine" where
  "pause_playback e = e\<lparr>is_playing := False\<rparr>"

definition stop_playback :: "audio_engine \<Rightarrow> audio_engine" where
  "stop_playback e = e\<lparr>is_playing := False, playback_position := 0, playback_start_time := 0\<rparr>"

text \<open>\<^verbatim>\<open>playback_position / sample_rate\<close> raises ZeroDivisionError for a zero rate.\<close>

definition get_playback_time :: "audio_engine \<Rightarrow> error + real" where
  "get_playback_time e =
     (if is_playing e then
        (if sample_rate e = 0 then Inl ZeroDivisionError
         else Inr (real (playback_position e) / real (sample_rate e)))
      else Inr 0)"

subsection \<open>Finishing a recording\<close>

text \<open>What \<^verbatim>\<open>stop_recording\<close> prints.\<close>

datatype message =
    AppliedLatencyCompensation
  | RecordingTooShort
  | SavedRecording string
  | FailedToSaveRecording

text \<open>
  \<open>mkdir_ok\<close> and \<open>write_ok\<close> tell whether creating the recordings directory and writing
  the file succeed, \<open>stamp\<close> is \<^verbatim>\<open>int(time.time())\<close>. The result is the new state, the
  messages printed and what the call returns: the file name, None, or the exception of a
  failed \<^verbatim>\<open>mkdir\<close>, which is raised after the track has been stored.
\<close>

definition stop_recording ::
  "audio_engine \<Rightarrow> bool \<Rightarrow> bool \<Rightarrow> int
     \<Rightarrow> audio_engine \<times> message list \<times> (error + string option)" where
  "stop_recording e mkdir_ok write_ok stamp =
     (if \<not> is_recording e then (e, [], Inr None)
      else
        (let track_num = recording_track e;
             buffer_copy = recording_buffer e;
             e1 = e\<lparr>is_recording := False, recording_buffer := [], recording_track := None\<rparr>
         in case track_num of
              None \<Rightarrow> (e1, [], Inr None)
            | Some t \<Rightarrow>
                if length buffer_copy > 0 then
                  (let (audio_data, printed) =
                         (if measured_latency_samples e1 > 0 then
                            (if int (length buffer_copy) > measured_latency_samples e1
                             then (drop (nat (measured_latency_samples e1)) buffer_copy,
                                   [AppliedLatencyCompensation])
                             else (buffer_copy, [RecordingTooShort]))
                          else (buffer_copy, []));
                       e2 = e1\<lparr>track_data := AList.update t audio_data (track_data e1),
                               track_lengths := (track_lengths e1)(t \<mapsto> length audio_data)\<rparr>;
                       filename = recordings_dir e2 @ ''/track_'' @ py_str t @ ''_''
                                    @ py_str stamp @ ''.wav''
                   in if \<not> mkdir_ok then (e2, printed, Inl OSError)
                      else if write_ok
                      then (e2, printed @ [SavedRecording filename], Inr (Some filename))
                      else (e2, printed @ [FailedToSaveRecording], Inr None))
                else (e1, [], Inr None)))"

subsection \<open>Latency calibration\<close>

text \<open>
  The outcome of one of the four measurements of \<^verbatim>\<open>measure_latency\<close>: the latency in
  samples found by the correlation, too little recorded data (\<^verbatim>\<open>continue\<close>), or an
  exception from the audio stream.
\<close>

datatype trial = Measured int | InsufficientData | StreamError

fun collect_measurements :: "trial list \<Rightarrow> int list \<Rightarrow> error + int list" where
  "collect_measurements [] latency_measurements = Inr latency_measurements"
| "collect_measurements (Measured n # ts) latency_measurements =
     collect_measurements ts (latency_measurements @ [n])"
| "collect_measurements (InsufficientData # ts) latency_measurements =
     collect_measurements ts latency_measurements"
| "collect_measurements (StreamError # ts) latency_measurements = Inl OSError"

text \<open>The \<^verbatim>\<open>except\<close> branch. Its own division raises again when the sample rate is zero.\<close>

definition conservative_estimate :: "audio_engine \<Rightarrow> error + (audio_engine \<times> int)" where
  "conservative_estimate e =
     (if sample_rate e = 0 then Inl ZeroDivisionError
      else Inr (e\<lparr>measured_latency_samples := int (buffer_size e * 4),
                  measured_latency_ms :=
                    real (buffer_size e * 4) / real (sample_rate e) * 1000\<rparr>,
                int (buffer_size e * 4)))"

text \<open>
  The end of the \<^verbatim>\<open>try\<close> block: the average of the collected measurements. Too few
  measurements raise an exception, which the \<^verbatim>\<open>except\<close> branch catches; so does the
  division by a zero sample rate.
\<close>

definition average_latency :: "audio_engine \<Rightarrow> int list \<Rightarrow> error + (audio_engine \<times> int)" where
  "average_latency e latency_measurements =
     (if length latency_measurements \<ge> 2 then
        (let kept = (if length latency_measurements \<ge> 4
                     then butlast (tl (sort latency_measurements))
                     else latency_measurements);
             average_latency_samples = sum_list kept div int (length kept)
         in if sample_rate e = 0
            then conservative_estimate (e\<lparr>measured_latency_samples := average_latency_samples\<rparr>)
            else Inr (e\<lparr>measured_latency_samples := average_latency_samples,
                        measured_latency_ms :=
                          real_of_int average_latency_samples / real (sample_rate e) * 1000,
                        latency_calibrated := True\<rparr>,
                      average_latency_samples))
      else conservative_estimate e)"

text \<open>\<open>trials i\<close> is the outcome of measurement number \<open>i\<close> (of \<^verbatim>\<open>range(4)\<close>).\<close>

definition measure_latency :: "audio_engine \<Rightarrow> (nat \<Rightarrow> trial) \<Rightarrow> error + (audio_engine \<times> int)" where
  "measure_latency e trials =
     (case collect_measurements (map trials [0..<4]) [] of
        Inl err \<Rightarrow> conservative_estimate e
      | Inr latency_measurements \<Rightarrow> average_latency e latency_measurements)"

section \<open>Projects (project\_manager.py)\<close>

text \<open>
  A project is the dictionary that \<^verbatim>\<open>json.dump\<close> writes and \<^verbatim>\<open>json.load\<close> reads.
  A key that may be absent from a loaded file is an option. The keys of the \<open>tracks\<close>
  dictionary are integers in memory and strings in a file.
\<close>

datatype json_key = IntKey int | StrKey string

record track_entry =
  entry_has_data :: "bool option"
  entry_is_muted :: "bool option"
  entry_volume :: "real option"
  entry_name :: "string option"
  entry_fx_type :: "string option"
  entry_track_volume :: "real option"

record project =
  project_name :: "string option"
  created :: "string option"
  modified :: "string option"
  project_bpm :: "real option"
  project_metronome_enabled :: "bool option"
  project_tracks :: "(json_key \<times> track_entry) list option"

record project_manager =
  current_project :: "project option"
  current_project_name :: string

definition ProjectManager :: project_manager where
  "ProjectManager = \<lparr>current_project = None, current_project_name = ''Default Project''\<rparr>"

definition invalid_chars :: string where
  "invalid_chars = [CHR ''<'', CHR ''>'', CHR '':'', CHR 0x22, CHR ''/'', CHR 0x5C,
                    CHR ''|'', CHR ''?'', CHR ''*'']"

definition make_safe_filename :: "string \<Rightarrow> string" where
  "make_safe_filename filename =
     (let replaced = map (\<lambda>c. if c \<in> set invalid_chars then CHR ''_'' else c) filename;
          blank = (\<lambda>c. c = CHR '' '' \<or> c = CHR ''.'');
          safe_name = rev (dropWhile blank (rev (dropWhile blank replaced)))
      in if safe_name = [] then ''untitled'' else safe_name)"

text \<open>\<open>now\<close> is \<^verbatim>\<open>datetime.now().isoformat()\<close>, \<open>stamp\<close> the formatted time of the
  default name.\<close>

definition create_new_project :: "string option \<Rightarrow> string \<Rightarrow> string \<Rightarrow> project" where
  "create_new_project name_arg now stamp =
     \<lparr>project_name = Some (case name_arg of None \<Rightarrow> ''Project_'' @ stamp | Some n \<Rightarrow> n),
      created = Some now, modified = Some now,
      project_bpm = Some 120, project_metronome_enabled = Some False,
      project_tracks = Some []\<rparr>"

text \<open>\<^verbatim>\<open>json.dump\<close> turns the integer keys into strings; everything else is read back
  as it was written.\<close>

definition json_dump :: "project \<Rightarrow> project" where
  "json_dump p =
     p\<lparr>project_tracks :=
         map_option (map (\<lambda>(k, td). (case k of IntKey n \<Rightarrow> StrKey (py_str n)
                                              | StrKey s \<Rightarrow> StrKey s, td)))
           (project_tracks p)\<rparr>"

text \<open>The dictionary that \<^verbatim>\<open>save_project\<close> stores for one track.\<close>

definition saved_entry :: "audio_engine \<Rightarrow> int \<Rightarrow> track \<Rightarrow> track_entry" where
  "saved_entry e track_num t =
     \<lparr>entry_has_data = Some (has_track_data e track_num),
      entry_is_muted = Some (is_muted t),
      entry_volume = Some (volume t),
      entry_name = Some (name t),
      entry_fx_type = Some (get_track_fx e track_num),
      entry_track_volume = Some (get_track_volume e track_num)\<rparr>"

definition saved_tracks :: "track_manager \<Rightarrow> audio_engine \<Rightarrow> (json_key \<times> track_entry) list" where
  "saved_tracks tm e =
     concat (map (\<lambda>track_num.
                    case get_track tm track_num of
                      None \<Rightarrow> []
                    | Some t \<Rightarrow> [(IntKey track_num, saved_entry e track_num t)])
                 [1..8])"

text \<open>
  \<open>fs\<close> maps the path of a project file to the document in it, \<open>write_ok\<close> tells whether
  the file can be written. The result is the manager, the path returned (None after a
  failed write) and the files. \<^verbatim>\<open>self.current_project['name']\<close> raises KeyError when
  a loaded project has no name and none is given.
\<close>

definition save_project ::
  "project_manager \<Rightarrow> track_manager \<Rightarrow> audio_engine \<Rightarrow> string option \<Rightarrow> string \<Rightarrow> string
     \<Rightarrow> bool \<Rightarrow> (string \<rightharpoonup> project)
     \<Rightarrow> error + (project_manager \<times> string option \<times> (string \<rightharpoonup> project))" where
  "save_project pm tm e name_arg now stamp write_ok fs =
     (let p0 = (case current_project pm of
                  None \<Rightarrow> create_new_project name_arg now stamp
                | Some p \<Rightarrow>
                    (case name_arg of
                       None \<Rightarrow> p
                     | Some n \<Rightarrow> if n \<noteq> [] then p\<lparr>project_name := Some n\<rparr> else p));
          p1 = p0\<lparr>modified := Some now,
                  project_bpm := Some (bpm e),
                  project_metronome_enabled := Some (metronome_enabled e),
                  project_tracks := Some (saved_tracks tm e)\<rparr>;
          pm1 = pm\<lparr>current_project := Some p1\<rparr>
      in case project_name p1 of
           None \<Rightarrow> Inl KeyError
         | Some pname \<Rightarrow>
             (let project_file = ''projects/'' @ make_safe_filename pname @ ''.json''
              in if write_ok
                 then Inr (pm1, Some project_file, fs(project_file \<mapsto> json_dump p1))
                 else Inr (pm1, None, fs)))"

definition load_project ::
  "project_manager \<Rightarrow> (string \<rightharpoonup> project) \<Rightarrow> string \<Rightarrow> project_manager \<times> bool" where
  "load_project pm fs project_file =
     (case fs project_file of
        None \<Rightarrow> (pm, False)
      | Some doc \<Rightarrow> (pm\<lparr>current_project := Some doc\<rparr>, True))"

text \<open>\<^verbatim>\<open>int(track_num_str)\<close> on a key of the \<open>tracks\<close> dictionary.\<close>

definition key_int :: "json_key \<Rightarrow> error + int" where
  "key_int k = (case k of IntKey n \<Rightarrow> Inr n | StrKey s \<Rightarrow> py_int s)"

definition apply_entry :: "int \<Rightarrow> track_entry \<Rightarrow> track \<Rightarrow> track" where
  "apply_entry track_num td t =
     (set_volume (t\<lparr>is_muted := (case entry_is_muted td of Some m \<Rightarrow> m | None \<Rightarrow> False)\<rparr>)
                 (case entry_volume td of Some v \<Rightarrow> v | None \<Rightarrow> 1))
       \<lparr>name := (case entry_name td of Some n \<Rightarrow> n | None \<Rightarrow> ''Track '' @ py_str track_num)\<rparr>"

text \<open>
  The loop over the saved tracks. An exception (a key that is no integer) is caught by the
  \<^verbatim>\<open>except\<close> of \<^verbatim>\<open>apply_project_to_managers\<close>, which returns False and keeps what was
  applied before.
\<close>

fun apply_tracks ::
  "(json_key \<times> track_entry) list \<Rightarrow> track_manager \<Rightarrow> audio_engine
     \<Rightarrow> track_manager \<times> audio_engine \<times> bool" where
  "apply_tracks [] tm e = (tm, e, True)"
| "apply_tracks ((track_num_str, td) # rest) tm e =
     (case key_int track_num_str of
        Inl err \<Rightarrow> (tm, e, False)
      | Inr track_num \<Rightarrow>
          (case get_track tm track_num of
             None \<Rightarrow> apply_tracks rest tm e
           | Some t \<Rightarrow>
               (let tm1 = tm\<lparr>tracks := AList.map_entry track_num (apply_entry track_num td)
                                         (tracks tm)\<rparr>;
                    fx_type = (case entry_fx_type td of Some f \<Rightarrow> f | None \<Rightarrow> ''none'');
                    e1 = set_track_fx e track_num fx_type;
                    track_volume = (case entry_track_volume td of Some v \<Rightarrow> v | None \<Rightarrow> 0.75);
                    e2 = set_track_volume e1 track_num track_volume
                in apply_tracks rest tm1 e2)))"

definition apply_project_to_managers ::
  "project_manager \<Rightarrow> track_manager \<Rightarrow> audio_engine
     \<Rightarrow> track_manager \<times> audio_engine \<times> bool" where
  "apply_project_to_managers pm tm e =
     (case current_project pm of
        None \<Rightarrow> (tm, e, False)
      | Some p \<Rightarrow>
          (let e1 = set_bpm e (case project_bpm p of Some b \<Rightarrow> b | None \<Rightarrow> 120);
               e2 = set_metronome e1 (case project_metronome_enabled p of
                                        Some m \<Rightarrow> m | None \<Rightarrow> False)
           in apply_tracks (case project_tracks p of Some ts \<Rightarrow> ts | None \<Rightarrow> []) tm e2))"

section \<open>Reachable track states\<close>

text \<open>
  The states a TrackManager can be in: the constructor's, and whatever its methods make of
  one. Outside the class, \<^verbatim>\<open>ui_controller.py\<close> assigns \<^verbatim>\<open>track.name\<close> and calls
  \<^verbatim>\<open>track.set_has_data\<close> (what \<^verbatim>\<open>mark_track_has_data\<close> does), and
  \<^verbatim>\<open>apply_project_to_managers\<close> sets mute, volume and name; nothing else in the
  repository changes a Track.
\<close>

inductive reachable :: "track_manager \<Rightarrow> bool" where
  r_init: "reachable (TrackManager n)"
| r_arm: "reachable tm \<Longrightarrow> reachable (fst (arm_track tm k))"
| r_disarm_all: "reachable tm \<Longrightarrow> reachable (disarm_all_tracks tm)"
| r_toggle_mute: "reachable tm \<Longrightarrow> reachable (fst (toggle_track_mute tm k))"
| r_set_volume: "reachable tm \<Longrightarrow> reachable (tm_set_track_volume tm k v)"
| r_mark: "reachable tm \<Longrightarrow> reachable (mark_track_has_data tm k b)"
| r_clear: "reachable tm \<Longrightarrow> reachable (tm_clear_track tm k)"
| r_reset: "reachable tm \<Longrightarrow> reachable (reset_all_tracks tm)"
| r_rename: "reachable tm \<Longrightarrow>
             reachable (tm\<lparr>tracks := AList.map_entry k (\<lambda>t. t\<lparr>name := new_name\<rparr>) (tracks tm)\<rparr>)"
| r_apply: "reachable tm \<Longrightarrow> reachable (fst (apply_project_to_managers pm tm e))"

definition armed_numbers :: "track_manager \<Rightarrow> int list" where
  "armed_numbers tm = map fst (filter (\<lambda>(k, t). is_armed t) (tracks tm))"

section \<open>Reference notions and sample states\<close>

text \<open>The measurements of the trials that produced one, in order: the valid trials.\<close>

fun valid_measurements :: "trial list \<Rightarrow> int list" where
  "valid_measurements [] = []"
| "valid_measurements (Measured n # ts) = n # valid_measurements ts"
| "valid_measurements (InsufficientData # ts) = valid_measurements ts"
| "valid_measurements (StreamError # ts) = valid_measurements ts"

definition four_trials :: "nat \<Rightarrow> trial" where
  "four_trials i = (if i = 0 then Measured 130 else if i = 1 then Measured 120
                    else if i = 2 then Measured 900 else Measured 127)"

text \<open>Two measurements, then an audio stream that fails to open.\<close>

definition failing_trials :: "nat \<Rightarrow> trial" where
  "failing_trials i = (if i = 0 then Measured 130 else if i = 1 then Measured 120
                       else StreamError)"

text \<open>An engine two seconds into playback.\<close>

definition playing_engine :: audio_engine where
  "playing_engine = (AudioEngine [] [])\<lparr>is_playing := True, playback_position := 88200\<rparr>"

text \<open>Engines recording into track 1 with a measured latency of two samples, after two
  and after three captured samples.\<close>

definition short_take :: audio_engine where
  "short_take = (AudioEngine [] [])\<lparr>is_recording := True, recording_track := Some 1,
                   recording_buffer := [0.5, 0.25], measured_latency_samples := 2\<rparr>"

definition long_take :: audio_engine where
  "long_take = (AudioEngine [] [])\<lparr>is_recording := True, recording_track := Some 1,
                   recording_buffer := [0.5, 0.25, 0.125], measured_latency_samples := 2\<rparr>"

text \<open>
  The click that the metronome adds at sample index \<open>i\<close> of the frame, before the volume
  is applied: the sample of the applicable waveform at the beat position, when that position
  lies within the regular click and within the applicable waveform.
\<close>

definition metronome_click :: "audio_engine \<Rightarrow> nat \<Rightarrow> real option" where
  "metronome_click e i =
     (let beat_position = (playback_position e + i) mod samples_per_beat e;
          current_beat = ((playback_position e + i) div samples_per_beat e) mod 4 + 1;
          waveform = (if current_beat = 1 then metronome_and_sound e else metronome_sound e)
      in if beat_position < length (metronome_sound e) \<and> beat_position < length waveform
         then Some (waveform ! beat_position) else None)"

text \<open>An engine with a click of 50 ms and an accent of 200 ms.\<close>

definition click_engine :: audio_engine where
  "click_engine = (AudioEngine (replicate 2205 0.25) (replicate 8820 0.5))"

text \<open>
  An engine that has just started playback of one recorded track of three samples, the
  track manager that knows the track, and two callback invocations.
\<close>

definition demo_manager :: track_manager where
  "demo_manager = mark_track_has_data (TrackManager 8) 1 True"

definition demo_engine :: audio_engine where
  "demo_engine =
     fst (start_playback
            ((AudioEngine [] [])\<lparr>track_data := [(1, [0.5, 0.25, 0.125])],
                                 track_lengths := [1 \<mapsto> 3]\<rparr>) True 0)"

definition demo_calls :: "(track_manager option \<times> (nat \<times> real list list) \<times> real) list" where
  "demo_calls = [(Some demo_manager, (1, [0] # [0] # []), 0),
                 (Some demo_manager, (1, [0] # [0] # []), 0.01)]"

text \<open>The saved entries of the tracks numbered \<open>ns\<close>, under their integer numbers.\<close>

definition numbered_entries ::
  "track_manager \<Rightarrow> audio_engine \<Rightarrow> int list \<Rightarrow> (int \<times> track_entry) list" where
  "numbered_entries tm e ns =
     concat (map (\<lambda>track_num.
                    case get_track tm track_num of
                      None \<Rightarrow> []
                    | Some t \<Rightarrow> [(track_num, saved_entry e track_num t)])
                 ns)"

text \<open>
  A track manager and an engine with settings of track 2 changed from the defaults, to be
  saved.
\<close>

definition edited_manager :: track_manager where
  "edited_manager = fst (toggle_track_mute (tm_set_track_volume (TrackManager 8) 2 0.3) 2)"

definition edited_engine :: audio_engine where
  "edited_engine = set_track_volume (set_track_fx (AudioEngine [] []) 2 ''studio'') 2 0.4"

section \<open>Verification\<close>

subsection \<open>Reverb\<close>

lemma small_room_reverb:
  "room_size \<le> 0.8 \<Longrightarrow>
   map (\<lambda>dl. length (buffer dl)) (delay_lines (SimpleReverb room_size damping w 44100))
     = [661, 1014, 1543, 2072]
   \<and> wet (SimpleReverb room_size damping w 44100) = 0.5"
  by (simp add: SimpleReverb_def Let_def)

lemma large_hall_reverb:
  "room_size > 0.8 \<Longrightarrow>
   map (\<lambda>dl. length (buffer dl)) (delay_lines (SimpleReverb room_size damping w 44100))
     = [3924, 4851, 5600, 5953]
   \<and> wet (SimpleReverb room_size damping w 44100) = 0.4"
  by (simp add: SimpleReverb_def Let_def)

text \<open>
  Claim C2. The reverb constructed with room size 0.9 (the one of the \<open>wide_hall\<close> effect)
  has wet mix 0.4 and four delay lines, of 3924, 4851, 5600 and 5953 samples (0.089, 0.11,
  0.127 and 0.135 s at 44100 Hz): the delay times 0.22 s and 0.254 s get no delay line,
  because there are only four feedback gains to pair the six delay times with.
\<close>

theorem large_hall_reverb_has_four_lines:
  "map (\<lambda>dl. length (buffer dl)) (delay_lines (SimpleReverb 0.9 0.5 0.4 44100))
     = [3924, 4851, 5600, 5953]
   \<and> length (delay_lines (SimpleReverb 0.9 0.5 0.4 44100)) = 4
   \<and> wet (SimpleReverb 0.9 0.5 0.4 44100) = 0.4"
  by (simp add: SimpleReverb_def Let_def)

subsection \<open>Playback time\<close>

text \<open>
  Claim C10. \<^verbatim>\<open>get_playback_time\<close> returns the cursor divided by the sample rate while
  playback is active and 0 otherwise; \<^verbatim>\<open>pause_playback\<close> keeps the cursor, and the time
  reported after it is 0.
\<close>

theorem playback_time_zero_unless_playing:
  "(is_playing e \<and> sample_rate e \<noteq> 0 \<longrightarrow>
      get_playback_time e = Inr (real (playback_position e) / real (sample_rate e)))
   \<and> (\<not> is_playing e \<longrightarrow> get_playback_time e = Inr 0)
   \<and> get_playback_time (pause_playback e) = Inr 0
   \<and> playback_position (pause_playback e) = playback_position e"
  by (simp add: get_playback_time_def pause_playback_def)

theorem playback_time_zero_unless_playing_witness:
  "is_playing playing_engine \<and> sample_rate playing_engine \<noteq> 0
   \<and> get_playback_time playing_engine = Inr 2
   \<and> get_playback_time (pause_playback playing_engine) = Inr 0
   \<and> playback_position (pause_playback playing_engine) = 88200"
  using playback_time_zero_unless_playing [of playing_engine]
  by (simp add: playing_engine_def AudioEngine_def calculate_metronome_timing_def)

subsection \<open>Latency compensation of a finished recording\<close>

text \<open>
  Claim C4 as stated fails for a recording of exactly as many samples as the offset: it is
  not shorter than the offset, yet nothing is trimmed, the stored track keeps both samples
  and the warning is printed.
\<close>

theorem recording_of_offset_length_counterexample:
  "\<not> (length (recording_buffer short_take) < nat (measured_latency_samples short_take))
   \<and> map_of (track_data (fst (stop_recording short_take True True 0))) 1 = Some [0.5, 0.25]
   \<and> track_lengths (fst (stop_recording short_take True True 0)) 1 \<noteq> Some (2 - 2)
   \<and> RecordingTooShort \<in> set (fst (snd (stop_recording short_take True True 0)))"
  by (simp add: short_take_def stop_recording_def AudioEngine_def
        calculate_metronome_timing_def Let_def)

text \<open>
  Claim C4, amended. When a recording with captured samples is finalized with a measured
  latency offset \<open>L > 0\<close>: if more than \<open>L\<close> samples were captured, exactly the first \<open>L\<close>
  are dropped and the stored track has the captured length minus \<open>L\<close>; if at most \<open>L\<close>
  samples were captured, the recording is stored as it is and the warning is printed.
\<close>

theorem stop_recording_trims_latency:
  assumes "is_recording e" and "recording_track e = Some t" and "recording_buffer e \<noteq> []"
    and "measured_latency_samples e = int L" and "0 < L"
    and "stop_recording e mkdir_ok write_ok stamp = (e', printed, res)"
  shows "(length (recording_buffer e) > L \<longrightarrow>
            map_of (track_data e') t = Some (drop L (recording_buffer e))
          \<and> track_lengths e' t = Some (length (recording_buffer e) - L)
          \<and> AppliedLatencyCompensation \<in> set printed \<and> RecordingTooShort \<notin> set printed)
       \<and> (length (recording_buffer e) \<le> L \<longrightarrow>
            map_of (track_data e') t = Some (recording_buffer e)
          \<and> track_lengths e' t = Some (length (recording_buffer e))
          \<and> RecordingTooShort \<in> set printed \<and> AppliedLatencyCompensation \<notin> set printed)"
  using assms
  by (auto simp: stop_recording_def Let_def AList.update_conv' split: if_splits)

theorem stop_recording_trims_latency_witness:
  "is_recording long_take \<and> recording_track long_take = Some 1
   \<and> recording_buffer long_take \<noteq> [] \<and> measured_latency_samples long_take = int 2
   \<and> map_of (track_data (fst (stop_recording long_take True True 0))) 1 = Some [0.125]
   \<and> track_lengths (fst (stop_recording long_take True True 0)) 1 = Some 1
   \<and> AppliedLatencyCompensation \<in> set (fst (snd (stop_recording long_take True True 0)))"
proof -
  have a: "is_recording long_take" "recording_track long_take = Some 1"
    "recording_buffer long_take \<noteq> []" "measured_latency_samples long_take = int 2"
    by (simp_all add: long_take_def AudioEngine_def calculate_metronome_timing_def)
  have b: "recording_buffer long_take = [0.5, 0.25, 0.125]"
    by (simp add: long_take_def AudioEngine_def calculate_metronome_timing_def)
  obtain e' printed res where s: "stop_recording long_take True True 0 = (e', printed, res)"
    by (cases "stop_recording long_take True True 0") auto
  have "0 < (2::nat)" by simp
  from stop_recording_trims_latency [OF a this s] b s a show ?thesis by simp
qed

subsection \<open>Latency calibration\<close>

lemma sum_list_insort: "sum_list (insort (x::int) xs) = x + sum_list xs"
  by (induction xs) simp_all

lemma sum_list_sort: "sum_list (sort (xs::int list)) = sum_list xs"
  by (induction xs) (simp_all add: sum_list_insort)

lemma sorted_hd_is_Min: "sorted (xs::int list) \<Longrightarrow> xs \<noteq> [] \<Longrightarrow> Min (set xs) = hd xs"
  by (cases xs) (auto intro: Min_eqI)

lemma sorted_last_is_Max: "sorted (xs::int list) \<Longrightarrow> xs \<noteq> [] \<Longrightarrow> Max (set xs) = last xs"
proof (induction xs)
  case Nil
  then show ?case by simp
next
  case (Cons x xs)
  show ?case
  proof (cases "xs = []")
    case True
    then show ?thesis by simp
  next
    case False
    then have "last xs \<in> set xs" by simp
    with Cons.prems have "x \<le> last xs" by auto
    moreover have "Max (set xs) = last xs" using Cons False by simp
    ultimately show ?thesis using False by (simp add: max_def)
  qed
qed

text \<open>Dropping the first and the last element of the sorted measurements removes one
  occurrence of the lowest and one of the highest value.\<close>

lemma trimmed_sum:
  assumes "2 \<le> length (xs::int list)"
  shows "sum_list (butlast (tl (sort xs))) = sum_list xs - Max (set xs) - Min (set xs)"
proof -
  let ?s = "sort xs"
  have len: "2 \<le> length ?s" using assms by simp
  then obtain a r where s: "?s = a # r"
    by (cases ?s) auto
  have r: "r \<noteq> []" using len s by auto
  have so: "sorted ?s" by simp
  have ne: "?s \<noteq> []" using s by simp
  have st: "set ?s = set xs" by simp
  have "Min (set ?s) = hd ?s" using so ne by (rule sorted_hd_is_Min)
  then have mn: "Min (set xs) = a" unfolding st using s by simp
  have "Max (set ?s) = last ?s" using so ne by (rule sorted_last_is_Max)
  then have mx: "Max (set xs) = last r" unfolding st using s r by simp
  have "sum_list r = sum_list (butlast r) + last r"
    using r by (metis append_butlast_last_id sum_list_append sum_list.Cons sum_list.Nil add_0_right)
  moreover have "sum_list xs = a + sum_list r"
    using sum_list_sort [of xs] s by simp
  ultimately show ?thesis using s mn mx by simp
qed

lemma collect_valid:
  "StreamError \<notin> set ts \<Longrightarrow> collect_measurements ts acc = Inr (acc @ valid_measurements ts)"
  by (induction ts acc rule: collect_measurements.induct) simp_all

lemma four_trials_outcomes:
  "map four_trials [0..<4] = [Measured 130, Measured 120, Measured 900, Measured 127]"
  by (simp add: four_trials_def upt_rec)

lemma collect_stream_error:
  "StreamError \<in> set ts \<Longrightarrow> collect_measurements ts acc = Inl OSError"
  by (induction ts acc rule: collect_measurements.induct) auto

lemma failing_trials_outcomes:
  "map failing_trials [0..<4] = [Measured 130, Measured 120, StreamError, StreamError]"
  by (simp add: failing_trials_def upt_rec)

text \<open>
  Claim C5 as stated fails when the audio stream fails after two valid trials: the
  measurements 130 and 120 are not averaged (to 125); the calibration falls back to
  4 * 256 = 1024 samples and does not mark the device calibrated.
\<close>

theorem stream_failure_after_two_trials_counterexample:
  "valid_measurements (map failing_trials [0..<4]) = [130, 120]
   \<and> \<not> isl (measure_latency (AudioEngine [] []) failing_trials)
   \<and> snd (projr (measure_latency (AudioEngine [] []) failing_trials)) = 1024
   \<and> measured_latency_samples (fst (projr (measure_latency (AudioEngine [] []) failing_trials)))
       = 1024
   \<and> \<not> latency_calibrated (fst (projr (measure_latency (AudioEngine [] []) failing_trials)))"
  by (simp add: failing_trials_outcomes measure_latency_def conservative_estimate_def
        AudioEngine_def calculate_metronome_timing_def)

text \<open>
  Claim C5, amended. Let \<open>ms\<close> be the measurements of the valid trials of a calibration
  (at a non-zero sample rate). If the audio stream raises in one of the four trials, or
  there are fewer than two valid trials, the calibration falls back to four times the
  buffer size and leaves the calibrated flag as it was. Otherwise, with two or three valid
  trials it stores their average (integer division) and marks the device calibrated, and
  with four it first removes one highest and one lowest measurement, stores the average of
  the rest and marks the device calibrated.
\<close>

theorem measure_latency_aggregation:
  assumes "sample_rate e \<noteq> 0"
    and "ms = valid_measurements (map trials [0..<4])"
  shows "(StreamError \<in> set (map trials [0..<4]) \<or> length ms < 2 \<longrightarrow>
            (\<exists>e'. measure_latency e trials = Inr (e', int (buffer_size e * 4))
                 \<and> measured_latency_samples e' = int (buffer_size e * 4)
                 \<and> latency_calibrated e' = latency_calibrated e))
       \<and> (StreamError \<notin> set (map trials [0..<4]) \<and> 2 \<le> length ms \<and> length ms < 4 \<longrightarrow>
            (\<exists>e'. measure_latency e trials = Inr (e', sum_list ms div int (length ms))
                 \<and> measured_latency_samples e' = sum_list ms div int (length ms)
                 \<and> latency_calibrated e'))
       \<and> (StreamError \<notin> set (map trials [0..<4]) \<and> 4 \<le> length ms \<longrightarrow>
            (\<exists>e'. measure_latency e trials
                     = Inr (e', (sum_list ms - Max (set ms) - Min (set ms)) div (int (length ms) - 2))
                 \<and> measured_latency_samples e'
                     = (sum_list ms - Max (set ms) - Min (set ms)) div (int (length ms) - 2)
                 \<and> latency_calibrated e'))"
proof -
  have failed: "\<exists>e'. measure_latency e trials = Inr (e', int (buffer_size e * 4))
                 \<and> measured_latency_samples e' = int (buffer_size e * 4)
                 \<and> latency_calibrated e' = latency_calibrated e"
    if "StreamError \<in> set (map trials [0..<4])"
    using collect_stream_error [OF that, of "[]"] assms(1)
    by (simp add: measure_latency_def conservative_estimate_def)
  have m: "measure_latency e trials = average_latency e ms"
    if "StreamError \<notin> set (map trials [0..<4])"
    using collect_valid [OF that, of "[]"] assms(2) by (simp add: measure_latency_def)
  have few: "\<exists>e'. measure_latency e trials = Inr (e', int (buffer_size e * 4))
                 \<and> measured_latency_samples e' = int (buffer_size e * 4)
                 \<and> latency_calibrated e' = latency_calibrated e"
    if "StreamError \<notin> set (map trials [0..<4])" and "length ms < 2"
    using assms(1) that(2) by (simp add: m [OF that(1)] average_latency_def conservative_estimate_def)
  have some: "\<exists>e'. measure_latency e trials = Inr (e', sum_list ms div int (length ms))
                 \<and> measured_latency_samples e' = sum_list ms div int (length ms)
                 \<and> latency_calibrated e'"
    if "StreamError \<notin> set (map trials [0..<4])" and "2 \<le> length ms" and "length ms < 4"
    using assms(1) that(2,3) by (simp add: m [OF that(1)] average_latency_def Let_def)
  have many: "\<exists>e'. measure_latency e trials
                     = Inr (e', (sum_list ms - Max (set ms) - Min (set ms)) div (int (length ms) - 2))
                 \<and> measured_latency_samples e'
                     = (sum_list ms - Max (set ms) - Min (set ms)) div (int (length ms) - 2)
                 \<and> latency_calibrated e'"
    if "StreamError \<notin> set (map trials [0..<4])" and l: "4 \<le> length ms"
  proof -
    have t: "sum_list (butlast (tl (sort ms))) = sum_list ms - Max (set ms) - Min (set ms)"
      using l trimmed_sum [of ms] by simp
    have n: "int (length (butlast (tl (sort ms)))) = int (length ms) - 2"
      using l by simp
    show ?thesis
      using assms(1) l
      by (simp add: m [OF that(1)] average_latency_def Let_def t n del: length_butlast length_tl)
  qed
  from failed few some many show ?thesis by blast
qed

theorem measure_latency_aggregation_witness:
  "sample_rate (AudioEngine [] []) \<noteq> 0
   \<and> StreamError \<notin> set (map four_trials [0..<4])
   \<and> valid_measurements (map four_trials [0..<4]) = [130, 120, 900, 127]
   \<and> (\<exists>e'. measure_latency (AudioEngine [] []) four_trials = Inr (e', 128)
          \<and> measured_latency_samples e' = 128 \<and> latency_calibrated e')"
proof -
  have a: "sample_rate (AudioEngine [] []) \<noteq> 0"
    by (simp add: AudioEngine_def calculate_metronome_timing_def)
  have b: "StreamError \<notin> set (map four_trials [0..<4])"
    by (simp add: four_trials_outcomes)
  have c: "[130, 120, 900, 127] = valid_measurements (map four_trials [0..<4])"
    by (simp add: four_trials_outcomes)
  show ?thesis
    using measure_latency_aggregation [OF a c] a b c [symmetric] by simp
qed

subsection \<open>Metronome\<close>

lemma metronome_loop_result:
  assumes "distinct is" and "\<forall>i\<in>set is. i < length out"
  shows "\<exists>out'. metronome_loop e v is out = Inr out' \<and> length out' = length out
           \<and> (\<forall>j<length out.
                 out' ! j =
                   (if j \<in> set is
                    then (case metronome_click e j of
                            None \<Rightarrow> out ! j
                          | Some w \<Rightarrow> (fst (out ! j) + w * v, snd (out ! j) + w * v))
                    else out ! j))"
  using assms
proof (induction "is" arbitrary: out)
  case Nil
  then show ?case by simp
next
  case (Cons i "is")
  define step where
    "step = (case metronome_click e i of
               None \<Rightarrow> out
             | Some w \<Rightarrow> out[i := (fst (out ! i) + w * v, snd (out ! i) + w * v)])"
  have i: "i < length out" using Cons.prems by simp
  have unf: "metronome_loop e v (i # is) out = metronome_loop e v is step"
    using i by (simp add: step_def metronome_click_def Let_def)
  have len: "length step = length out" by (simp add: step_def split: option.splits)
  have other: "step ! j = out ! j" if "j \<noteq> i" for j
    using that by (simp add: step_def split: option.splits)
  have here: "step ! i = (case metronome_click e i of
                            None \<Rightarrow> out ! i
                          | Some w \<Rightarrow> (fst (out ! i) + w * v, snd (out ! i) + w * v))"
    using i by (simp add: step_def split: option.splits)
  have d: "distinct is" and b: "\<forall>k\<in>set is. k < length step"
    using Cons.prems len by simp_all
  from Cons.IH [OF d b] obtain out' where
    r: "metronome_loop e v is step = Inr out'" and l: "length out' = length step"
    and v: "\<forall>j<length step. out' ! j =
              (if j \<in> set is
               then (case metronome_click e j of
                       None \<Rightarrow> step ! j
                     | Some w \<Rightarrow> (fst (step ! j) + w * v, snd (step ! j) + w * v))
               else step ! j)"
    by blast
  have ni: "i \<notin> set is" using Cons.prems by simp
  have "out' ! j =
          (if j \<in> set (i # is)
           then (case metronome_click e j of
                   None \<Rightarrow> out ! j
                 | Some w \<Rightarrow> (fst (out ! j) + w * v, snd (out ! j) + w * v))
           else out ! j)" if j: "j < length out" for j
  proof (cases "j = i")
    case True
    have "out' ! i = step ! i" using v i len ni by simp
    then show ?thesis unfolding True using here by (simp split: option.splits)
  next
    case False
    then show ?thesis using v j len other [OF False] by (simp split: option.splits)
  qed
  then show ?case using unf r l len by simp
qed

text \<open>
  What \<^verbatim>\<open>add_metronome_optimized\<close> adds to a frame of \<open>frames\<close> stereo samples, for a
  non-zero beat length: at index \<open>i\<close> the sample of the applicable waveform at the beat
  position, times the effective volume, when the beat position lies within the regular
  click and within the applicable waveform, and nothing otherwise.
\<close>

lemma metronome_adds_gated_clicks:
  assumes "samples_per_beat e \<noteq> 0" and "length output = frames"
  shows "\<exists>out'. add_metronome_optimized e output frames = Inr out' \<and> length out' = frames
           \<and> (\<forall>i<frames.
                 out' ! i =
                   (let beat_position = (playback_position e + i) mod samples_per_beat e;
                        current_beat = ((playback_position e + i) div samples_per_beat e) mod 4 + 1;
                        waveform = (if current_beat = 1 then metronome_and_sound e
                                    else metronome_sound e)
                    in if beat_position < length (metronome_sound e)
                          \<and> beat_position < length waveform
                       then (fst (output ! i)
                               + waveform ! beat_position * get_effective_metronome_volume e,
                             snd (output ! i)
                               + waveform ! beat_position * get_effective_metronome_volume e)
                       else output ! i))"
proof (cases "get_effective_metronome_volume e = 0")
  case True
  then have "add_metronome_optimized e output frames = Inr output"
    by (simp add: add_metronome_optimized_def)
  then show ?thesis using True assms(2) by (simp add: Let_def)
next
  case False
  let ?v = "get_effective_metronome_volume e"
  have a: "add_metronome_optimized e output frames = metronome_loop e ?v [0..<frames] output"
    using False assms(1) by (simp add: add_metronome_optimized_def Let_def)
  have "distinct [0..<frames]" and "\<forall>i\<in>set [0..<frames]. i < length output"
    using assms(2) by simp_all
  from metronome_loop_result [OF this, of e ?v] obtain out' where
    r: "metronome_loop e ?v [0..<frames] output = Inr out'"
    and l: "length out' = length output"
    and v: "\<forall>j<length output. out' ! j =
              (if j \<in> set [0..<frames]
               then (case metronome_click e j of
                       None \<Rightarrow> output ! j
                     | Some w \<Rightarrow> (fst (output ! j) + w * ?v, snd (output ! j) + w * ?v))
               else output ! j)"
    by blast
  have "\<forall>i<frames.
          out' ! i =
            (let beat_position = (playback_position e + i) mod samples_per_beat e;
                 current_beat = ((playback_position e + i) div samples_per_beat e) mod 4 + 1;
                 waveform = (if current_beat = 1 then metronome_and_sound e
                             else metronome_sound e)
             in if beat_position < length (metronome_sound e)
                   \<and> beat_position < length waveform
                then (fst (output ! i) + waveform ! beat_position * ?v,
                      snd (output ! i) + waveform ! beat_position * ?v)
                else output ! i)"
    using v assms(2) by (simp add: metronome_click_def Let_def)
  then show ?thesis using a r l assms(2) by simp
qed

lemma click_engine_fields:
  "metronome_volume click_engine = 0.5" "samples_per_beat click_engine = 22050"
  "length (metronome_sound click_engine) = 2205"
  "length (metronome_and_sound click_engine) = 8820"
  "metronome_and_sound click_engine ! 3000 = 0.5"
  "playback_position click_engine = 0" "bpm click_engine = 120"
  "sample_rate click_engine = 44100"
  by (auto simp: click_engine_def AudioEngine_def calculate_metronome_timing_def)

text \<open>
  Claim C6. An engine at 120 BPM and 44100 Hz has 22050 samples per beat. With a regular
  click of 2205 samples and an accent of 8820 samples, at cursor 3000 the beat position
  3000 is on beat 1 and within the accent, whose sample there times the effective volume
  is 1; yet the metronome adds nothing to the output, because 3000 is beyond the length of
  the regular click.
\<close>

theorem long_accent_cut_at_click_length:
  "bpm click_engine = 120 \<and> sample_rate click_engine = 44100
   \<and> samples_per_beat click_engine = 22050
   \<and> (playback_position (click_engine\<lparr>playback_position := 3000\<rparr>) + 0)
        mod samples_per_beat (click_engine\<lparr>playback_position := 3000\<rparr>) = 3000
   \<and> ((playback_position (click_engine\<lparr>playback_position := 3000\<rparr>) + 0)
        div samples_per_beat (click_engine\<lparr>playback_position := 3000\<rparr>)) mod 4 + 1 = 1
   \<and> 3000 < length (metronome_and_sound (click_engine\<lparr>playback_position := 3000\<rparr>))
   \<and> metronome_and_sound (click_engine\<lparr>playback_position := 3000\<rparr>) ! 3000
        * get_effective_metronome_volume (click_engine\<lparr>playback_position := 3000\<rparr>) = 1
   \<and> add_metronome_optimized (click_engine\<lparr>playback_position := 3000\<rparr>) [(0, 0)] 1
        = Inr [(0, 0)]"
  by (simp add: click_engine_fields add_metronome_optimized_def get_effective_metronome_volume_def)

subsection \<open>Armed tracks\<close>

lemma fst_map_values: "fst \<circ> (\<lambda>(k, t). (k, f t)) = fst"
  by (auto simp: fun_eq_iff)

lemma keys_map_values: "map fst (map (\<lambda>(k, t). (k, f t)) xs) = map fst xs"
  by (simp add: fst_map_values)

lemma keys_map_entry: "map fst (AList.map_entry k f xs) = map fst xs"
  by (induction xs) auto

lemma armed_disarm_all:
  "filter (\<lambda>(k, t). is_armed t) (map (\<lambda>(k, t). (k, disarm t)) xs) = []"
  by (induction xs) (auto simp: disarm_def)

lemma armed_count_map_entry_same:
  assumes "\<forall>t. is_armed (f t) = is_armed t"
  shows "length (filter (\<lambda>(k, t). is_armed t) (AList.map_entry n f xs))
           = length (filter (\<lambda>(k, t). is_armed t) xs)"
proof (induction xs)
  case Nil
  then show ?case by simp
next
  case (Cons p ps)
  obtain k t where p: "p = (k, t)" by (cases p)
  have ft: "is_armed (f t) = is_armed t" using assms by blast
  show ?case
  proof (cases "k = n")
    case True
    then show ?thesis using p ft by simp
  next
    case False
    then show ?thesis using p Cons.IH by simp
  qed
qed

lemma upto_1_8: "[1..8] = [1, 2, 3, 4, 5, 6, 7, 8 :: int]"
  by (simp add: upto_rec1)

lemma armed_map_entry_less:
  assumes "\<forall>t. \<not> is_armed (f t)"
  shows "length (filter (\<lambda>(k, t). is_armed t) (AList.map_entry n f xs))
           \<le> length (filter (\<lambda>(k, t). is_armed t) xs)"
proof (induction xs)
  case Nil
  then show ?case by simp
next
  case (Cons p ps)
  obtain k t where p: "p = (k, t)" by (cases p)
  have ft: "\<not> is_armed (f t)" using assms by blast
  show ?case
  proof (cases "k = n")
    case True
    then show ?thesis using p ft by simp
  next
    case False
    then show ?thesis using p Cons.IH by simp
  qed
qed

lemma armed_map_entry_arm:
  "filter (\<lambda>(k, t). is_armed t) xs = [] \<Longrightarrow> n \<in> fst ` set xs \<Longrightarrow>
   map fst (filter (\<lambda>(k, t). is_armed t) (AList.map_entry n arm xs)) = [n]"
proof (induction xs)
  case Nil
  then show ?case by simp
next
  case (Cons p ps)
  obtain k t where p: "p = (k, t)" by (cases p)
  have t: "\<not> is_armed t" and ps: "filter (\<lambda>(k, t). is_armed t) ps = []"
    using Cons.prems(1) p by (auto split: if_splits)
  show ?case
  proof (cases "k = n")
    case True
    then show ?thesis using p ps by (simp add: arm_def)
  next
    case False
    then have "n \<in> fst ` set ps" using Cons.prems(2) p by auto
    from Cons.IH [OF ps this] show ?thesis using p t False by simp
  qed
qed

lemma arm_track_armed_numbers:
  assumes "map_of (tracks tm) n \<noteq> None"
  shows "armed_numbers (fst (arm_track tm n)) = [n]"
    and "snd (arm_track tm n) = True"
    and "armed_track (fst (arm_track tm n)) = Some n"
proof -
  let ?ts = "map (\<lambda>(k, t). (k, disarm t)) (tracks tm)"
  have "n \<in> fst ` set (tracks tm)" using assms by (simp add: map_of_eq_None_iff)
  then have k: "n \<in> fst ` set ?ts" by force
  then have m: "map_of ?ts n \<noteq> None" by (simp add: map_of_eq_None_iff)
  show "armed_numbers (fst (arm_track tm n)) = [n]"
    using armed_map_entry_arm [OF armed_disarm_all k] m
    by (simp add: arm_track_def armed_numbers_def Let_def)
  show "snd (arm_track tm n) = True" using m by (simp add: arm_track_def Let_def)
  show "armed_track (fst (arm_track tm n)) = Some n" using m by (simp add: arm_track_def Let_def)
qed

lemma arm_track_tracks:
  assumes "map_of (tracks tm) n \<noteq> None"
    and "get_track (fst (arm_track tm n)) k = Some t"
  shows "is_armed t \<longleftrightarrow> k = n"
proof -
  let ?ts = "map (\<lambda>(k, t). (k, disarm t)) (tracks tm)"
  have "n \<in> fst ` set (tracks tm)" using assms(1) by (simp add: map_of_eq_None_iff)
  then have "n \<in> fst ` set ?ts" by force
  then have m: "map_of ?ts n \<noteq> None" by (simp add: map_of_eq_None_iff)
  have dis: "\<not> is_armed u" if "map_of ?ts j = Some u" for j u
  proof -
    from that have "(j, u) \<in> set ?ts" by (rule map_of_SomeD)
    then show ?thesis by (auto simp: disarm_def)
  qed
  have g: "map_of (AList.map_entry n arm ?ts) k = Some t"
    using assms(2) m by (simp add: arm_track_def get_track_def Let_def)
  show ?thesis
  proof (cases "k = n")
    case True
    then show ?thesis using g by (auto simp: map_of_map_entry arm_def split: option.splits)
  next
    case False
    then have "map_of ?ts k = Some t" using g by (simp add: map_of_map_entry)
    then show ?thesis using dis False by blast
  qed
qed

lemma arm_track_count: "length (armed_numbers (fst (arm_track tm n))) \<le> 1"
proof (cases "map_of (tracks tm) n \<noteq> None")
  case True
  then show ?thesis using arm_track_armed_numbers(1) [OF True] by simp
next
  case False
  let ?ts = "map (\<lambda>(k, t). (k, disarm t)) (tracks tm)"
  from False have "n \<notin> fst ` set (tracks tm)" by (simp add: map_of_eq_None_iff)
  then have "n \<notin> fst ` set ?ts" by force
  then have "map_of ?ts n = None" by (simp add: map_of_eq_None_iff)
  then show ?thesis by (simp add: arm_track_def armed_numbers_def Let_def armed_disarm_all)
qed

lemma clear_track_count:
  "length (armed_numbers (tm_clear_track tm k)) \<le> length (armed_numbers tm)"
proof -
  have "\<forall>t. \<not> is_armed ((disarm (set_has_data t False))\<lparr>is_muted := False, volume := 1\<rparr>)"
    by (simp add: disarm_def)
  from armed_map_entry_less [OF this, of k "tracks tm"]
  show ?thesis by (simp add: tm_clear_track_def armed_numbers_def)
qed

lemma clear_track_keys:
  "map fst (tracks (tm_clear_track tm k)) = map fst (tracks tm)
   \<and> num_tracks (tm_clear_track tm k) = num_tracks tm"
  by (simp add: tm_clear_track_def keys_map_entry)

lemma reset_fold_count:
  "length (armed_numbers (fold (\<lambda>track_num m. tm_clear_track m track_num) ks tm))
     \<le> length (armed_numbers tm)"
proof (induction ks arbitrary: tm)
  case Nil
  then show ?case by simp
next
  case (Cons k ks)
  have "length (armed_numbers (fold (\<lambda>track_num m. tm_clear_track m track_num) ks (tm_clear_track tm k)))
          \<le> length (armed_numbers (tm_clear_track tm k))" by (rule Cons.IH)
  also have "\<dots> \<le> length (armed_numbers tm)" by (rule clear_track_count)
  finally show ?case by simp
qed

lemma reset_fold_keys:
  "map fst (tracks (fold (\<lambda>track_num m. tm_clear_track m track_num) ks tm)) = map fst (tracks tm)
   \<and> num_tracks (fold (\<lambda>track_num m. tm_clear_track m track_num) ks tm) = num_tracks tm"
  by (induction ks arbitrary: tm) (simp_all add: clear_track_keys)

lemma apply_tracks_manager:
  "map fst (tracks (fst (apply_tracks ents tm e))) = map fst (tracks tm)
   \<and> num_tracks (fst (apply_tracks ents tm e)) = num_tracks tm
   \<and> length (armed_numbers (fst (apply_tracks ents tm e))) = length (armed_numbers tm)"
proof (induction ents arbitrary: tm e)
  case Nil
  then show ?case by simp
next
  case (Cons x ents)
  obtain key td where x: "x = (key, td)" by (cases x)
  show ?case
  proof (cases "key_int key")
    case (Inl err)
    then show ?thesis using x by simp
  next
    case (Inr n)
    show ?thesis
    proof (cases "get_track tm n")
      case None
      then show ?thesis using x Inr Cons.IH by simp
    next
      case (Some t)
      define tm1 where
        "tm1 = tm\<lparr>tracks := AList.map_entry n (apply_entry n td) (tracks tm)\<rparr>"
      have "\<forall>t. is_armed (apply_entry n td t) = is_armed t"
        by (simp add: apply_entry_def set_volume_def)
      from armed_count_map_entry_same [OF this, of n "tracks tm"]
      have s: "map fst (tracks tm1) = map fst (tracks tm)" "num_tracks tm1 = num_tracks tm"
        "length (armed_numbers tm1) = length (armed_numbers tm)"
        by (simp_all add: tm1_def keys_map_entry armed_numbers_def)
      have "fst (apply_tracks (x # ents) tm e)
              = fst (apply_tracks ents tm1
                       (set_track_volume
                          (set_track_fx e n (case entry_fx_type td of Some f \<Rightarrow> f | None \<Rightarrow> ''none''))
                          n (case entry_track_volume td of Some v \<Rightarrow> v | None \<Rightarrow> 0.75)))"
        using x Inr Some by (simp add: tm1_def Let_def)
      then show ?thesis using Cons.IH [of tm1] s by simp
    qed
  qed
qed

lemma apply_project_manager:
  "map fst (tracks (fst (apply_project_to_managers pm tm e))) = map fst (tracks tm)
   \<and> num_tracks (fst (apply_project_to_managers pm tm e)) = num_tracks tm
   \<and> length (armed_numbers (fst (apply_project_to_managers pm tm e)))
       = length (armed_numbers tm)"
  by (simp add: apply_project_to_managers_def Let_def apply_tracks_manager split: option.splits)

lemma reachable_keys:
  "reachable tm \<Longrightarrow> map fst (tracks tm) = [1..num_tracks tm]"
proof (induction rule: reachable.induct)
  case (r_init n)
  then show ?case by (simp add: TrackManager_def comp_def)
next
  case (r_arm tm k)
  then show ?case by (simp add: arm_track_def Let_def fst_map_values keys_map_entry)
next
  case (r_disarm_all tm)
  then show ?case by (simp add: disarm_all_tracks_def fst_map_values)
next
  case (r_toggle_mute tm k)
  then show ?case by (simp add: toggle_track_mute_def keys_map_entry split: option.splits)
next
  case (r_set_volume tm k v)
  then show ?case by (simp add: tm_set_track_volume_def keys_map_entry)
next
  case (r_mark tm k b)
  then show ?case by (simp add: mark_track_has_data_def keys_map_entry)
next
  case (r_clear tm k)
  then show ?case by (simp add: clear_track_keys)
next
  case (r_reset tm)
  then show ?case by (simp add: reset_all_tracks_def reset_fold_keys)
next
  case (r_rename tm k new_name)
  then show ?case by (simp add: keys_map_entry)
next
  case (r_apply tm pm e)
  then show ?case by (simp add: apply_project_manager)
qed

lemma reachable_count:
  "reachable tm \<Longrightarrow> length (armed_numbers tm) \<le> 1"
proof (induction rule: reachable.induct)
  case (r_init n)
  have "filter (\<lambda>(k, t). is_armed t) (map (\<lambda>i. (i, Track i)) xs) = []" for xs
    by (induction xs) (simp_all add: Track_def)
  then show ?case by (simp add: TrackManager_def armed_numbers_def)
next
  case (r_arm tm k)
  then show ?case using arm_track_count [of tm k] by simp
next
  case (r_disarm_all tm)
  then show ?case by (simp add: disarm_all_tracks_def armed_numbers_def armed_disarm_all)
next
  case (r_toggle_mute tm k)
  have "\<forall>t. is_armed (fst (toggle_mute t)) = is_armed t" by (simp add: toggle_mute_def)
  from armed_count_map_entry_same [OF this, of k "tracks tm"] r_toggle_mute.IH
  show ?case by (simp add: toggle_track_mute_def armed_numbers_def split: option.splits)
next
  case (r_set_volume tm k v)
  have "\<forall>t. is_armed (set_volume t v) = is_armed t" by (simp add: set_volume_def)
  from armed_count_map_entry_same [OF this, of k "tracks tm"] r_set_volume.IH
  show ?case by (simp add: tm_set_track_volume_def armed_numbers_def)
next
  case (r_mark tm k b)
  have "\<forall>t. is_armed (set_has_data t b) = is_armed t" by (simp add: set_has_data_def)
  from armed_count_map_entry_same [OF this, of k "tracks tm"] r_mark.IH
  show ?case by (simp add: mark_track_has_data_def armed_numbers_def)
next
  case (r_clear tm k)
  then show ?case using clear_track_count [of tm k] by simp
next
  case (r_reset tm)
  then show ?case
    using reset_fold_count [of "map fst (tracks tm)" tm] by (simp add: reset_all_tracks_def)
next
  case (r_rename tm k new_name)
  have "\<forall>t. is_armed (t\<lparr>name := new_name\<rparr>) = is_armed t" by simp
  from armed_count_map_entry_same [OF this, of k "tracks tm"] r_rename.IH
  show ?case by (simp add: armed_numbers_def)
next
  case (r_apply tm pm e)
  then show ?case by (simp add: apply_project_manager)
qed

text \<open>
  Claim C7. In every state a TrackManager can reach, at most one track is armed; and
  \<^verbatim>\<open>arm_track\<close> with a track number between 1 and the number of tracks returns True,
  records the number in \<open>armed_track\<close> and leaves the requested track as the only armed
  one.
\<close>

theorem at_most_one_armed_track:
  assumes "reachable tm"
  shows "length (armed_numbers tm) \<le> 1
       \<and> (\<forall>n. 1 \<le> n \<and> n \<le> num_tracks tm \<longrightarrow>
             snd (arm_track tm n) = True
           \<and> armed_track (fst (arm_track tm n)) = Some n
           \<and> armed_numbers (fst (arm_track tm n)) = [n]
           \<and> (\<forall>k t. get_track (fst (arm_track tm n)) k = Some t \<longrightarrow> (is_armed t \<longleftrightarrow> k = n)))"
proof -
  have valid: "map_of (tracks tm) n \<noteq> None" if "1 \<le> n" and "n \<le> num_tracks tm" for n
  proof -
    have "n \<in> set [1..num_tracks tm]" using that by simp
    then have "n \<in> fst ` set (tracks tm)"
      using reachable_keys [OF assms] by (metis set_map)
    then show ?thesis by (simp add: map_of_eq_None_iff)
  qed
  show ?thesis
    using reachable_count [OF assms] arm_track_armed_numbers [OF valid] arm_track_tracks [OF valid]
    by blast
qed

theorem at_most_one_armed_track_witness:
  "reachable (fst (arm_track (TrackManager 8) 3))
   \<and> armed_numbers (fst (arm_track (TrackManager 8) 3)) = [3]
   \<and> length (armed_numbers (fst (arm_track (TrackManager 8) 3))) \<le> 1
   \<and> snd (arm_track (fst (arm_track (TrackManager 8) 3)) 5) = True
   \<and> armed_track (fst (arm_track (fst (arm_track (TrackManager 8) 3)) 5)) = Some 5
   \<and> armed_numbers (fst (arm_track (fst (arm_track (TrackManager 8) 3)) 5)) = [5]"
proof -
  have r: "reachable (fst (arm_track (TrackManager 8) 3))"
    by (intro reachable.intros)
  have n: "num_tracks (fst (arm_track (TrackManager 8) 3)) = 8"
    by (simp add: arm_track_def TrackManager_def Let_def)
  have a: "armed_numbers (fst (arm_track (TrackManager 8) 3)) = [3]"
    by (simp add: arm_track_def TrackManager_def Let_def armed_numbers_def upto_1_8
          Track_def disarm_def arm_def)
  from at_most_one_armed_track [OF r] r n a show ?thesis by simp
qed


subsection \<open>Invalid track numbers\<close>

text \<open>
  Claim C8 as stated fails: with track 3 armed, \<^verbatim>\<open>arm_track(9)\<close> disarms it; and the
  engine's \<^verbatim>\<open>set_track_fx(9, 'studio')\<close> and \<^verbatim>\<open>set_track_volume(9, 0.2)\<close> store the
  setting under the number 9, where \<^verbatim>\<open>get_track_fx\<close> and \<^verbatim>\<open>get_track_volume\<close> find it.
\<close>

theorem invalid_track_number_counterexample:
  "get_track (TrackManager 8) 9 = None
   \<and> armed_numbers (fst (arm_track (TrackManager 8) 3)) = [3]
   \<and> armed_numbers (fst (arm_track (fst (arm_track (TrackManager 8) 3)) 9)) = []
   \<and> get_track_fx (AudioEngine [] []) 9 = ''none''
   \<and> get_track_fx (set_track_fx (AudioEngine [] []) 9 ''studio'') 9 = ''studio''
   \<and> get_track_volume (AudioEngine [] []) 9 = 0.75
   \<and> get_track_volume (set_track_volume (AudioEngine [] []) 9 0.2) 9 = 0.2"
  by (simp add: get_track_def arm_track_def TrackManager_def Let_def armed_numbers_def upto_1_8
        Track_def disarm_def arm_def AudioEngine_def calculate_metronome_timing_def
        get_track_fx_def set_track_fx_def get_track_volume_def set_track_volume_def)

lemma invalid_number_absent:
  assumes "reachable tm" and "n < 1 \<or> num_tracks tm < n"
  shows "map_of (tracks tm) n = None"
proof -
  have "n \<notin> set [1..num_tracks tm]" using assms(2) by auto
  then have "n \<notin> fst ` set (tracks tm)"
    using reachable_keys [OF assms(1)] by (metis set_map)
  then show ?thesis by (simp add: map_of_eq_None_iff)
qed

text \<open>
  Claim C8, amended. None of the operations raises an exception (they are total functions
  here). For a track number outside 1..\<open>num_tracks\<close>: toggling mute and setting the
  volume in the track manager change nothing; \<^verbatim>\<open>arm_track\<close> returns False and leaves the
  number of tracks and every track's number, mute flag, volume, data flag and name as they
  were. The engine's \<^verbatim>\<open>set_track_fx\<close> and \<^verbatim>\<open>set_track_volume\<close> do not check the
  number: \<^verbatim>\<open>set_track_fx\<close> stores the effect type and the freshly built processors
  under the given number, \<^verbatim>\<open>set_track_volume\<close> the clamped volume; the entries of every
  other number, the other two dictionaries and all the rest of the engine stay as they
  were.
\<close>

theorem invalid_track_number_operations:
  assumes "reachable tm" and "n < 1 \<or> num_tracks tm < n"
  shows "toggle_track_mute tm n = (tm, False)
       \<and> tm_set_track_volume tm n v = tm
       \<and> snd (arm_track tm n) = False
       \<and> num_tracks (fst (arm_track tm n)) = num_tracks tm
       \<and> map_option (\<lambda>t. t\<lparr>is_armed := False\<rparr>) (get_track (fst (arm_track tm n)) k)
            = map_option (\<lambda>t. t\<lparr>is_armed := False\<rparr>) (get_track tm k)
       \<and> track_fx (set_track_fx e n fx) k = (if k = n then Some fx else track_fx e k)
       \<and> fx_processors (set_track_fx e n fx) k
            = (if k = n then Some (build_fx fx) else fx_processors e k)
       \<and> track_volumes (set_track_fx e n fx) k = track_volumes e k
       \<and> get_track_fx (set_track_fx e n fx) k = (if k = n then fx else get_track_fx e k)
       \<and> get_track_volume (set_track_fx e n fx) k = get_track_volume e k
       \<and> (set_track_fx e n fx)\<lparr>track_fx := track_fx e, fx_processors := fx_processors e\<rparr> = e
       \<and> track_volumes (set_track_volume e n v) k
            = (if k = n then Some (max 0 (min 1 v)) else track_volumes e k)
       \<and> track_fx (set_track_volume e n v) k = track_fx e k
       \<and> fx_processors (set_track_volume e n v) k = fx_processors e k
       \<and> get_track_volume (set_track_volume e n v) k
            = (if k = n then max 0 (min 1 v) else get_track_volume e k)
       \<and> get_track_fx (set_track_volume e n v) k = get_track_fx e k
       \<and> (set_track_volume e n v)\<lparr>track_volumes := track_volumes e\<rparr> = e"
proof -
  let ?ts = "map (\<lambda>(k, t). (k, disarm t)) (tracks tm)"
  have a: "map_of (tracks tm) n = None" using assms by (rule invalid_number_absent)
  then have "n \<notin> fst ` set (tracks tm)" by (simp add: map_of_eq_None_iff)
  then have "n \<notin> fst ` set ?ts" by force
  then have b: "map_of ?ts n = None" by (simp add: map_of_eq_None_iff)
  have arm: "fst (arm_track tm n) = tm\<lparr>tracks := ?ts\<rparr>" "snd (arm_track tm n) = False"
    using b by (simp_all add: arm_track_def Let_def)
  have look: "map_of ?ts k = map_option disarm (map_of (tracks tm) k)"
    by (simp add: map_of_map)
  have 1: "toggle_track_mute tm n = (tm, False)" using a by (simp add: toggle_track_mute_def)
  have 2: "tm_set_track_volume tm n v = tm" using a by (simp add: tm_set_track_volume_def)
  have 3: "num_tracks (fst (arm_track tm n)) = num_tracks tm" using arm by simp
  have 4: "map_option (\<lambda>t. t\<lparr>is_armed := False\<rparr>) (get_track (fst (arm_track tm n)) k)
            = map_option (\<lambda>t. t\<lparr>is_armed := False\<rparr>) (get_track tm k)"
    using arm look
    by (cases "map_of (tracks tm) k") (simp_all add: get_track_def disarm_def)
  have 5: "track_fx (set_track_fx e n fx) k = (if k = n then Some fx else track_fx e k)"
    "fx_processors (set_track_fx e n fx) k
       = (if k = n then Some (build_fx fx) else fx_processors e k)"
    "track_volumes (set_track_fx e n fx) k = track_volumes e k"
    "get_track_fx (set_track_fx e n fx) k = (if k = n then fx else get_track_fx e k)"
    "get_track_volume (set_track_fx e n fx) k = get_track_volume e k"
    "(set_track_fx e n fx)\<lparr>track_fx := track_fx e, fx_processors := fx_processors e\<rparr> = e"
    by (simp_all add: get_track_fx_def get_track_volume_def set_track_fx_def)
  have 6: "track_volumes (set_track_volume e n v) k
            = (if k = n then Some (max 0 (min 1 v)) else track_volumes e k)"
    "track_fx (set_track_volume e n v) k = track_fx e k"
    "fx_processors (set_track_volume e n v) k = fx_processors e k"
    "get_track_volume (set_track_volume e n v) k
       = (if k = n then max 0 (min 1 v) else get_track_volume e k)"
    "get_track_fx (set_track_volume e n v) k = get_track_fx e k"
    "(set_track_volume e n v)\<lparr>track_volumes := track_volumes e\<rparr> = e"
    by (simp_all add: get_track_fx_def get_track_volume_def set_track_volume_def)
  from 1 2 arm(2) 3 4 5 6 show ?thesis by blast
qed

theorem invalid_track_number_operations_witness:
  "reachable (fst (arm_track (TrackManager 8) 3))
   \<and> num_tracks (fst (arm_track (TrackManager 8) 3)) < 9
   \<and> toggle_track_mute (fst (arm_track (TrackManager 8) 3)) 9
        = (fst (arm_track (TrackManager 8) 3), False)
   \<and> tm_set_track_volume (fst (arm_track (TrackManager 8) 3)) 9 0.2
        = fst (arm_track (TrackManager 8) 3)
   \<and> snd (arm_track (fst (arm_track (TrackManager 8) 3)) 9) = False
   \<and> fx_processors (set_track_fx (AudioEngine [] []) 9 ''studio'') 9
        = Some (build_fx ''studio'')
   \<and> fx_processors (set_track_fx (AudioEngine [] []) 9 ''studio'') 1
        = Some \<lparr>fx_compressor = None, fx_reverb = None\<rparr>
   \<and> get_track_fx (set_track_fx (AudioEngine [] []) 9 ''studio'') 9 = ''studio''
   \<and> get_track_fx (set_track_fx (AudioEngine [] []) 9 ''studio'') 1 = ''none''"
proof -
  have r: "reachable (fst (arm_track (TrackManager 8) 3))"
    by (intro reachable.intros)
  have n: "num_tracks (fst (arm_track (TrackManager 8) 3)) < 9"
    by (simp add: arm_track_def TrackManager_def Let_def)
  then have d: "9 < (1::int) \<or> num_tracks (fst (arm_track (TrackManager 8) 3)) < 9" by simp
  have f: "get_track_fx (AudioEngine [] []) 1 = ''none''"
    "fx_processors (AudioEngine [] []) 1 = Some \<lparr>fx_compressor = None, fx_reverb = None\<rparr>"
    by (simp_all add: get_track_fx_def AudioEngine_def calculate_metronome_timing_def)
  from invalid_track_number_operations
         [OF r d, where v = "0.2" and e = "AudioEngine [] []" and fx = "''studio''" and k = 9]
       invalid_track_number_operations
         [OF r d, where v = "0.2" and e = "AudioEngine [] []" and fx = "''studio''" and k = 1]
       r n f
  show ?thesis by simp
qed

subsection \<open>Playback cursor\<close>

lemma update_track_level_transport:
  "update_track_level e k l now = Inr e' \<Longrightarrow>
   is_playing e' = is_playing e \<and> playback_position e' = playback_position e"
  by (auto simp: update_track_level_def Let_def split: option.splits if_splits)

lemma meter_input_transport:
  "meter_input e k block now = Inr e' \<Longrightarrow>
   is_playing e' = is_playing e \<and> playback_position e' = playback_position e"
  by (auto simp: meter_input_def split: sum.splits option.splits
      dest!: update_track_level_transport)

lemma capture_input_transport:
  "capture_input e tm indata now = Inr e' \<Longrightarrow>
   is_playing e' = is_playing e \<and> playback_position e' = playback_position e"
  by (auto simp: capture_input_def Let_def split: if_splits option.splits
      dest!: meter_input_transport)

lemma process_track_fx_transport:
  "process_track_fx e k audio = Inr (e', out) \<Longrightarrow>
   is_playing e' = is_playing e \<and> playback_position e' = playback_position e"
  by (auto simp: process_track_fx_def split: option.splits if_splits sum.splits prod.splits)

lemma mix_track_transport:
  "mix_track e k frames mixed now = Inr (e', mixed') \<Longrightarrow>
   is_playing e' = is_playing e \<and> playback_position e' = playback_position e"
  by (auto simp: mix_track_def Let_def split: option.splits if_splits sum.splits prod.splits
      dest!: update_track_level_transport process_track_fx_transport)

lemma mix_tracks_transport:
  "mix_tracks e ks frames mixed now = Inr (e', mixed') \<Longrightarrow>
   is_playing e' = is_playing e \<and> playback_position e' = playback_position e"
proof (induction ks arbitrary: e mixed)
  case Nil
  then show ?case by simp
next
  case (Cons k ks)
  from Cons.prems obtain e1 mixed1 where
    s: "mix_track e k frames mixed now = Inr (e1, mixed1)"
    and r: "mix_tracks e1 ks frames mixed1 now = Inr (e', mixed')"
    by (auto split: sum.splits)
  from Cons.IH [OF r] mix_track_transport [OF s] show ?case by simp
qed

lemma audio_callback_transport:
  assumes "audio_callback e tm indata frames now = Inr (e', outdata)"
  shows "is_playing e' = is_playing e
       \<and> playback_position e' = playback_position e + (if is_playing e then frames else 0)"
proof -
  from assms obtain e1 where c: "capture_input e tm indata now = Inr e1"
    by (auto simp: audio_callback_def split: sum.splits)
  have t1: "is_playing e1 = is_playing e" "playback_position e1 = playback_position e"
    using capture_input_transport [OF c] by simp_all
  let ?e2 = "decay_levels e1"
  have t2: "is_playing ?e2 = is_playing e" "playback_position ?e2 = playback_position e"
    using t1 by (simp_all add: decay_levels_def)
  show ?thesis
  proof (cases "is_playing e")
    case False
    then have "e' = ?e2" using assms c t2 by (simp add: audio_callback_def Let_def)
    then show ?thesis using t2 False by simp
  next
    case True
    with assms c t2 obtain e3 mixed where
      m: "mix_tracks ?e2 (get_playable_tracks ?e2 tm) frames (replicate frames (0, 0)) now
            = Inr (e3, mixed)"
      and e': "e' = e3\<lparr>playback_position := playback_position e3 + frames\<rparr>"
      by (auto simp: audio_callback_def Let_def split: sum.splits prod.splits if_splits)
    from mix_tracks_transport [OF m] t2 e' True show ?thesis by simp
  qed
qed

lemma run_callbacks_cursor:
  "is_playing e \<Longrightarrow> run_callbacks e frames calls = Inr e' \<Longrightarrow>
   is_playing e' \<and> playback_position e' = playback_position e + length calls * frames"
proof (induction calls arbitrary: e)
  case Nil
  then show ?case by simp
next
  case (Cons c calls)
  obtain tm indata now where c: "c = (tm, indata, now)" by (cases c)
  from Cons.prems(2) c obtain e1 outdata where
    s: "audio_callback e tm indata frames now = Inr (e1, outdata)"
    and r: "run_callbacks e1 frames calls = Inr e'"
    by (auto split: sum.splits)
  have p: "is_playing e1" and q: "playback_position e1 = playback_position e + frames"
    using audio_callback_transport [OF s] Cons.prems(1) by simp_all
  from Cons.IH [OF p r] q show ?case by simp
qed

text \<open>
  Claim C1. After \<open>N\<close> consecutive callback invocations of \<open>frames\<close> samples each,
  none of which raised an exception, with playback active at the start (the callback never
  changes the flag), playback is still active and the cursor has advanced by exactly
  \<open>N * frames\<close>; from the cursor 0 that \<^verbatim>\<open>start_playback\<close> sets it is \<open>N * frames\<close>.
  \<^verbatim>\<open>stop_playback\<close> sets the cursor to 0.
\<close>

theorem playback_cursor_counts_frames:
  assumes "is_playing e" and "run_callbacks e frames calls = Inr e'"
  shows "playback_position e' = playback_position e + length calls * frames
       \<and> (playback_position e = 0 \<longrightarrow> playback_position e' = length calls * frames)
       \<and> is_playing e'
       \<and> playback_position (stop_playback e') = 0
       \<and> playback_position (fst (start_playback e0 True now)) = 0
       \<and> is_playing (fst (start_playback e0 True now))"
  using run_callbacks_cursor [OF assms]
  by (simp add: stop_playback_def start_playback_def)

lemma demo_playable: "get_playable_tracks e (Some demo_manager) = [1]"
  by (simp add: get_playable_tracks_def tm_get_playable_tracks_def demo_manager_def
        mark_track_has_data_def TrackManager_def upto_1_8 Track_def set_has_data_def)

lemma demo_armed: "get_armed_track demo_manager = None"
  by (simp add: get_armed_track_def demo_manager_def
        mark_track_has_data_def TrackManager_def)

lemma demo_run: "\<exists>e'. run_callbacks demo_engine 2 demo_calls = Inr e'"
  by (simp add: demo_calls_def demo_engine_def audio_callback_def capture_input_def
        demo_armed demo_playable decay_levels_def mix_track_def process_track_fx_def
        peak_abs_def update_track_level_def mix_into_def start_playback_def
        AudioEngine_def calculate_metronome_timing_def Let_def)

theorem playback_cursor_counts_frames_witness:
  "is_playing demo_engine \<and> playback_position demo_engine = 0
   \<and> (\<exists>e'. run_callbacks demo_engine 2 demo_calls = Inr e'
          \<and> playback_position e' = 4 \<and> is_playing e'
          \<and> playback_position (stop_playback e') = 0)"
proof -
  have p: "is_playing demo_engine" and z: "playback_position demo_engine = 0"
    by (simp_all add: demo_engine_def start_playback_def)
  from demo_run obtain e' where r: "run_callbacks demo_engine 2 demo_calls = Inr e'" ..
  have l: "length demo_calls = 2" by (simp add: demo_calls_def)
  from playback_cursor_counts_frames [OF p r] p z r l show ?thesis by simp
qed


subsection \<open>Saving and loading a project\<close>

text \<open>Reading back a decimal integer gives the integer: the keys of the saved tracks
  survive the file.\<close>

lemma digit_cases:
  assumes "(d::nat) < 10"
  obtains "d = 0" | "d = 1" | "d = 2" | "d = 3" | "d = 4" | "d = 5" | "d = 6"
    | "d = 7" | "d = 8" | "d = 9"
  using assms by atomize_elim arith

lemma digit_val_digit_char: "d < 10 \<Longrightarrow> digit_val (digit_char d) = Some d"
  by (erule digit_cases) (simp_all add: digit_val_def digit_char_def)

lemma digit_char_not_sign:
  "d < 10 \<Longrightarrow> digit_char d \<noteq> CHR ''-'' \<and> digit_char d \<noteq> CHR ''+''"
  by (erule digit_cases) (simp_all add: digit_char_def)

lemma digits_val_snoc:
  "d < 10 \<Longrightarrow>
   digits_val acc (cs @ [digit_char d])
     = (case digits_val acc cs of None \<Rightarrow> None | Some a \<Rightarrow> Some (a * 10 + d))"
  by (induction cs arbitrary: acc) (simp_all add: digit_val_digit_char split: option.splits)

lemma digits_val_str_nat: "digits_val 0 (str_nat n) = Some n"
proof (induction n rule: str_nat.induct)
  case (1 n)
  show ?case
  proof (cases "n < 10")
    case True
    then show ?thesis by (subst str_nat.simps) (simp add: digit_val_digit_char)
  next
    case False
    have m: "n mod 10 < 10" by simp
    have "digits_val 0 (str_nat (n div 10)) = Some (n div 10)" using 1 False by simp
    then show ?thesis using False
      by (subst str_nat.simps) (simp add: digits_val_snoc [OF m])
  qed
qed

lemma str_nat_head:
  "\<exists>c cs. str_nat n = c # cs \<and> c \<noteq> CHR ''-'' \<and> c \<noteq> CHR ''+''"
proof (induction n rule: str_nat.induct)
  case (1 n)
  show ?case
  proof (cases "n < 10")
    case True
    then show ?thesis using digit_char_not_sign [OF True]
      by (subst str_nat.simps) simp
  next
    case False
    then obtain c cs where "str_nat (n div 10) = c # cs" "c \<noteq> CHR ''-''" "c \<noteq> CHR ''+''"
      using 1 by blast
    then show ?thesis using False by (subst str_nat.simps) simp
  qed
qed

lemma py_int_py_str: "py_int (py_str i) = Inr i"
proof (cases "i < 0")
  case True
  obtain c cs where s: "str_nat (nat (- i)) = c # cs" using str_nat_head by blast
  have "digits_val 0 (c # cs) = Some (nat (- i))" using digits_val_str_nat [of "nat (- i)"] s by simp
  then show ?thesis using True s by (simp add: py_int_def py_str_def)
next
  case False
  obtain c cs where s: "str_nat (nat i) = c # cs" and c: "c \<noteq> CHR ''-''" "c \<noteq> CHR ''+''"
    using str_nat_head by blast
  have "digits_val 0 (c # cs) = Some (nat i)" using digits_val_str_nat [of "nat i"] s by simp
  then show ?thesis using False s c by (simp add: py_int_def py_str_def)
qed


lemma key_int_dumped: "key_int (StrKey (py_str n)) = Inr n"
  by (simp add: key_int_def py_int_py_str)

lemma apply_tracks_result:
  assumes "distinct (map fst xs)"
  shows "\<exists>tm' e'.
           apply_tracks (map (\<lambda>(n, td). (StrKey (py_str n), td)) xs) tm0 e0 = (tm', e', True)
         \<and> (\<forall>k. get_track tm' k =
                  (case map_of xs k of
                     None \<Rightarrow> get_track tm0 k
                   | Some td \<Rightarrow> map_option (apply_entry k td) (get_track tm0 k)))
         \<and> (\<forall>k. track_fx e' k =
                  (case map_of xs k of
                     None \<Rightarrow> track_fx e0 k
                   | Some td \<Rightarrow>
                       if get_track tm0 k = None then track_fx e0 k
                       else Some (case entry_fx_type td of Some f \<Rightarrow> f | None \<Rightarrow> ''none'')))
         \<and> (\<forall>k. track_volumes e' k =
                  (case map_of xs k of
                     None \<Rightarrow> track_volumes e0 k
                   | Some td \<Rightarrow>
                       if get_track tm0 k = None then track_volumes e0 k
                       else Some (max 0 (min 1 (case entry_track_volume td of
                                                  Some v \<Rightarrow> v | None \<Rightarrow> 0.75)))))"
  using assms
proof (induction xs arbitrary: tm0 e0)
  case Nil
  then show ?case by simp
next
  case (Cons x xs)
  obtain n td where x: "x = (n, td)" by (cases x)
  have d: "distinct (map fst xs)" and nn: "map_of xs n = None"
    using Cons.prems x by (simp_all add: map_of_eq_None_iff)
  show ?case
  proof (cases "get_track tm0 n")
    case None
    from Cons.IH [OF d, of tm0 e0] obtain tm' e' where
      r: "apply_tracks (map (\<lambda>(n, td). (StrKey (py_str n), td)) xs) tm0 e0 = (tm', e', True)"
      and t: "\<forall>k. get_track tm' k =
                  (case map_of xs k of
                     None \<Rightarrow> get_track tm0 k
                   | Some td \<Rightarrow> map_option (apply_entry k td) (get_track tm0 k))"
      and f: "\<forall>k. track_fx e' k =
                  (case map_of xs k of
                     None \<Rightarrow> track_fx e0 k
                   | Some td \<Rightarrow>
                       if get_track tm0 k = None then track_fx e0 k
                       else Some (case entry_fx_type td of Some f \<Rightarrow> f | None \<Rightarrow> ''none''))"
      and v: "\<forall>k. track_volumes e' k =
                  (case map_of xs k of
                     None \<Rightarrow> track_volumes e0 k
                   | Some td \<Rightarrow>
                       if get_track tm0 k = None then track_volumes e0 k
                       else Some (max 0 (min 1 (case entry_track_volume td of
                                                  Some v \<Rightarrow> v | None \<Rightarrow> 0.75))))"
      by blast
    have a: "apply_tracks (map (\<lambda>(n, td). (StrKey (py_str n), td)) (x # xs)) tm0 e0
               = (tm', e', True)"
      using r None x by (simp add: key_int_dumped)
    have t': "get_track tm' k =
                  (case map_of (x # xs) k of
                     None \<Rightarrow> get_track tm0 k
                   | Some td \<Rightarrow> map_option (apply_entry k td) (get_track tm0 k))" for k
      using t [rule_format, of k] x nn None by simp
    have f': "track_fx e' k =
                  (case map_of (x # xs) k of
                     None \<Rightarrow> track_fx e0 k
                   | Some td \<Rightarrow>
                       if get_track tm0 k = None then track_fx e0 k
                       else Some (case entry_fx_type td of Some f \<Rightarrow> f | None \<Rightarrow> ''none''))" for k
      using f [rule_format, of k] x nn None by simp
    have v': "track_volumes e' k =
                  (case map_of (x # xs) k of
                     None \<Rightarrow> track_volumes e0 k
                   | Some td \<Rightarrow>
                       if get_track tm0 k = None then track_volumes e0 k
                       else Some (max 0 (min 1 (case entry_track_volume td of
                                                  Some v \<Rightarrow> v | None \<Rightarrow> 0.75))))" for k
      using v [rule_format, of k] x nn None by simp
    from a t' f' v' show ?thesis by blast
  next
    case (Some t0)
    define tm1 where
      "tm1 = tm0\<lparr>tracks := AList.map_entry n (apply_entry n td) (tracks tm0)\<rparr>"
    define e2 where
      "e2 = set_track_volume
              (set_track_fx e0 n (case entry_fx_type td of Some f \<Rightarrow> f | None \<Rightarrow> ''none''))
              n (case entry_track_volume td of Some v \<Rightarrow> v | None \<Rightarrow> 0.75)"
    have g1: "get_track tm1 k = (if k = n then Some (apply_entry n td t0) else get_track tm0 k)" for k
      using Some by (simp add: tm1_def get_track_def map_of_map_entry)
    have fx2: "track_fx e2 k = (if k = n
                 then Some (case entry_fx_type td of Some f \<Rightarrow> f | None \<Rightarrow> ''none'')
                 else track_fx e0 k)" for k
      by (simp add: e2_def set_track_volume_def set_track_fx_def)
    have v2: "track_volumes e2 k = (if k = n
                 then Some (max 0 (min 1 (case entry_track_volume td of
                                            Some v \<Rightarrow> v | None \<Rightarrow> 0.75)))
                 else track_volumes e0 k)" for k
      by (simp add: e2_def set_track_volume_def set_track_fx_def)
    from Cons.IH [OF d, of tm1 e2] obtain tm' e' where
      r: "apply_tracks (map (\<lambda>(n, td). (StrKey (py_str n), td)) xs) tm1 e2 = (tm', e', True)"
      and t: "\<forall>k. get_track tm' k =
                  (case map_of xs k of
                     None \<Rightarrow> get_track tm1 k
                   | Some td \<Rightarrow> map_option (apply_entry k td) (get_track tm1 k))"
      and f: "\<forall>k. track_fx e' k =
                  (case map_of xs k of
                     None \<Rightarrow> track_fx e2 k
                   | Some td \<Rightarrow>
                       if get_track tm1 k = None then track_fx e2 k
                       else Some (case entry_fx_type td of Some f \<Rightarrow> f | None \<Rightarrow> ''none''))"
      and v: "\<forall>k. track_volumes e' k =
                  (case map_of xs k of
                     None \<Rightarrow> track_volumes e2 k
                   | Some td \<Rightarrow>
                       if get_track tm1 k = None then track_volumes e2 k
                       else Some (max 0 (min 1 (case entry_track_volume td of
                                                  Some v \<Rightarrow> v | None \<Rightarrow> 0.75))))"
      by blast
    have a: "apply_tracks (map (\<lambda>(n, td). (StrKey (py_str n), td)) (x # xs)) tm0 e0
               = (tm', e', True)"
      using r Some x by (simp add: key_int_dumped tm1_def e2_def Let_def)
    have t': "get_track tm' k =
                  (case map_of (x # xs) k of
                     None \<Rightarrow> get_track tm0 k
                   | Some td \<Rightarrow> map_option (apply_entry k td) (get_track tm0 k))" for k
    proof (cases "k = n")
      case True
      then show ?thesis using t [rule_format, of n] x nn Some g1 [of n] by simp
    next
      case False
      then show ?thesis using t [rule_format, of k] x g1 [of k] by (auto split: option.splits)
    qed
    have f': "track_fx e' k =
                  (case map_of (x # xs) k of
                     None \<Rightarrow> track_fx e0 k
                   | Some td \<Rightarrow>
                       if get_track tm0 k = None then track_fx e0 k
                       else Some (case entry_fx_type td of Some f \<Rightarrow> f | None \<Rightarrow> ''none''))" for k
    proof (cases "k = n")
      case True
      then show ?thesis using f [rule_format, of n] x nn Some fx2 [of n] by simp
    next
      case False
      then show ?thesis using f [rule_format, of k] x g1 [of k] fx2 [of k] by (auto split: option.splits)
    qed
    have v': "track_volumes e' k =
                  (case map_of (x # xs) k of
                     None \<Rightarrow> track_volumes e0 k
                   | Some td \<Rightarrow>
                       if get_track tm0 k = None then track_volumes e0 k
                       else Some (max 0 (min 1 (case entry_track_volume td of
                                                  Some v \<Rightarrow> v | None \<Rightarrow> 0.75))))" for k
    proof (cases "k = n")
      case True
      then show ?thesis using v [rule_format, of n] x nn Some v2 [of n] by simp
    next
      case False
      then show ?thesis using v [rule_format, of k] x g1 [of k] v2 [of k] by (auto split: option.splits)
    qed
    from a t' f' v' show ?thesis by blast
  qed
qed


lemma dumped_saved_tracks:
  "map (\<lambda>(k, td). (case k of IntKey n \<Rightarrow> StrKey (py_str n) | StrKey s \<Rightarrow> StrKey s, td))
       (concat (map (\<lambda>track_num.
                       case get_track tm track_num of
                         None \<Rightarrow> []
                       | Some t \<Rightarrow> [(IntKey track_num, saved_entry e track_num t)]) ns))
   = map (\<lambda>(n, td). (StrKey (py_str n), td)) (numbered_entries tm e ns)"
  by (induction ns) (auto simp: numbered_entries_def split: option.splits)

lemma numbered_entries_keys: "set (map fst (numbered_entries tm e ns)) \<subseteq> set ns"
  by (induction ns) (auto simp: numbered_entries_def split: option.splits)

lemma numbered_entries_Cons:
  "numbered_entries tm e (n # ns) =
     (case get_track tm n of None \<Rightarrow> [] | Some t \<Rightarrow> [(n, saved_entry e n t)])
     @ numbered_entries tm e ns"
  by (simp add: numbered_entries_def)

lemma numbered_entries_distinct:
  "distinct ns \<Longrightarrow> distinct (map fst (numbered_entries tm e ns))"
proof (induction ns)
  case Nil
  then show ?case by (simp add: numbered_entries_def)
next
  case (Cons n ns)
  have "n \<notin> set (map fst (numbered_entries tm e ns))"
    using numbered_entries_keys [of tm e ns] Cons.prems by auto
  then show ?case using Cons by (simp add: numbered_entries_Cons split: option.splits)
qed

lemma numbered_entries_lookup:
  "map_of (numbered_entries tm e ns) n =
     (if n \<in> set ns then map_option (saved_entry e n) (get_track tm n) else None)"
proof (induction ns)
  case Nil
  then show ?case by (simp add: numbered_entries_def)
next
  case (Cons m ns)
  show ?case
  proof (cases "get_track tm m")
    case None
    then show ?thesis using Cons by (auto simp: numbered_entries_Cons)
  next
    case (Some t)
    then show ?thesis using Cons by (auto simp: numbered_entries_Cons)
  qed
qed

lemma save_project_document:
  assumes "save_project pm tm e name_arg now stamp True fs = Inr (pm1, Some project_file, fs1)"
  shows "\<exists>p. fs1 project_file = Some p
           \<and> project_tracks p
               = Some (map (\<lambda>(n, td). (StrKey (py_str n), td)) (numbered_entries tm e [1..8]))"
  using assms
  by (auto simp: save_project_def Let_def json_dump_def saved_tracks_def dumped_saved_tracks
      split: option.splits)

text \<open>
  Claim C9. Save a project to a file, load that file and apply it to a track manager and an
  engine. For every track number \<open>n\<close> from 1 to 8 that both the saved and the receiving
  track manager have, if the saved track volume and engine volume lie in [0, 1], then
  loading and applying succeed and the receiving track has the saved volume, mute flag and
  name, and the receiving engine the saved effect type and volume of track \<open>n\<close>. (The
  effect type may be any string.)
\<close>

theorem project_round_trip:
  assumes "save_project pm tm e name_arg now stamp True fs = Inr (pm1, Some project_file, fs1)"
    and "load_project pm' fs1 project_file = (pm2, loaded)"
    and "apply_project_to_managers pm2 tm0 e0 = (tm', e', applied)"
    and "1 \<le> n" and "n \<le> 8"
    and "get_track tm n = Some t" and "get_track tm0 n = Some t0"
    and "0 \<le> volume t" and "volume t \<le> 1"
    and "0 \<le> get_track_volume e n" and "get_track_volume e n \<le> 1"
  shows "loaded \<and> applied
       \<and> (\<exists>t'. get_track tm' n = Some t'
              \<and> volume t' = volume t \<and> is_muted t' = is_muted t \<and> name t' = name t)
       \<and> get_track_fx e' n = get_track_fx e n
       \<and> get_track_volume e' n = get_track_volume e n"
proof -
  let ?xs = "numbered_entries tm e [1..8]"
  let ?ents = "map (\<lambda>(n, td). (StrKey (py_str n), td)) ?xs"
  from save_project_document [OF assms(1)] obtain p where
    p: "fs1 project_file = Some p" and pt: "project_tracks p = Some ?ents" by blast
  have l: "loaded" and c: "current_project pm2 = Some p"
    using assms(2) p by (auto simp: load_project_def)
  define e1 where
    "e1 = set_metronome (set_bpm e0 (case project_bpm p of Some b \<Rightarrow> b | None \<Rightarrow> 120))
            (case project_metronome_enabled p of Some m \<Rightarrow> m | None \<Rightarrow> False)"
  have a: "apply_tracks ?ents tm0 e1 = (tm', e', applied)"
    using assms(3) c pt by (simp add: apply_project_to_managers_def Let_def e1_def)
  have d: "distinct (map fst ?xs)" by (rule numbered_entries_distinct) simp
  have n: "n \<in> set [1..8]" using assms(4,5) by simp
  have m: "map_of ?xs n = Some (saved_entry e n t)"
    using n assms(6) by (simp add: numbered_entries_lookup)
  from apply_tracks_result [OF d, of tm0 e1] a
  have ok: "applied"
    and tr: "get_track tm' n =
               (case map_of ?xs n of
                  None \<Rightarrow> get_track tm0 n
                | Some td \<Rightarrow> map_option (apply_entry n td) (get_track tm0 n))"
    and fx: "track_fx e' n =
               (case map_of ?xs n of
                  None \<Rightarrow> track_fx e1 n
                | Some td \<Rightarrow>
                    if get_track tm0 n = None then track_fx e1 n
                    else Some (case entry_fx_type td of Some f \<Rightarrow> f | None \<Rightarrow> ''none''))"
    and vo: "track_volumes e' n =
               (case map_of ?xs n of
                  None \<Rightarrow> track_volumes e1 n
                | Some td \<Rightarrow>
                    if get_track tm0 n = None then track_volumes e1 n
                    else Some (max 0 (min 1 (case entry_track_volume td of
                                               Some v \<Rightarrow> v | None \<Rightarrow> 0.75))))"
    by auto
  have t': "get_track tm' n = Some (apply_entry n (saved_entry e n t) t0)"
    using tr m assms(7) by simp
  have v1: "volume (apply_entry n (saved_entry e n t) t0) = volume t"
    using assms(8,9) by (simp add: apply_entry_def saved_entry_def set_volume_def)
  have v2: "is_muted (apply_entry n (saved_entry e n t) t0) = is_muted t"
    by (simp add: apply_entry_def saved_entry_def set_volume_def)
  have v3: "name (apply_entry n (saved_entry e n t) t0) = name t"
    by (simp add: apply_entry_def saved_entry_def set_volume_def)
  have f': "get_track_fx e' n = get_track_fx e n"
    using fx m assms(7) by (simp add: get_track_fx_def saved_entry_def)
  have "track_volumes e' n = Some (get_track_volume e n)"
    using vo m assms(7,10,11) by (simp add: saved_entry_def)
  then have g': "get_track_volume e' n = get_track_volume e n"
    by (simp add: get_track_volume_def)
  from l ok t' v1 v2 v3 f' g' show ?thesis by simp
qed


lemma edited_sources:
  "get_track edited_manager 2
     = Some \<lparr>number = 2, is_armed = False, is_muted = True, volume = 0.3, has_data = False,
             name = ''Track 2''\<rparr>"
  "get_track (TrackManager 8) 2 = Some (Track 2)"
  "get_track_fx edited_engine 2 = ''studio''"
  "get_track_volume edited_engine 2 = 0.4"
  by (simp_all add: edited_manager_def edited_engine_def get_track_def toggle_track_mute_def
        tm_set_track_volume_def TrackManager_def upto_1_8 Track_def toggle_mute_def
        set_volume_def py_str_def str_nat.simps digit_char_def get_track_fx_def
        get_track_volume_def set_track_fx_def set_track_volume_def)

theorem project_round_trip_witness:
  "\<exists>pm1 f fs1 pm2 tm' e'.
     save_project ProjectManager edited_manager edited_engine (Some ''Demo'') ''now'' ''stamp''
       True Map.empty = Inr (pm1, Some f, fs1)
   \<and> load_project ProjectManager fs1 f = (pm2, True)
   \<and> apply_project_to_managers pm2 (TrackManager 8) (AudioEngine [] []) = (tm', e', True)
   \<and> (\<exists>t'. get_track tm' 2 = Some t' \<and> volume t' = 0.3 \<and> is_muted t'
          \<and> name t' = ''Track 2'')
   \<and> get_track_fx e' 2 = ''studio'' \<and> get_track_volume e' 2 = 0.4"
proof -
  have "\<exists>pm1 f fs1.
          save_project ProjectManager edited_manager edited_engine (Some ''Demo'') ''now''
            ''stamp'' True Map.empty = Inr (pm1, Some f, fs1)"
    by (simp add: save_project_def Let_def ProjectManager_def create_new_project_def)
  then obtain pm1 f fs1 where
    s: "save_project ProjectManager edited_manager edited_engine (Some ''Demo'') ''now''
          ''stamp'' True Map.empty = Inr (pm1, Some f, fs1)"
    by blast
  obtain pm2 loaded where l: "load_project ProjectManager fs1 f = (pm2, loaded)"
    by (cases "load_project ProjectManager fs1 f") auto
  obtain tm' e' applied where
    a: "apply_project_to_managers pm2 (TrackManager 8) (AudioEngine [] []) = (tm', e', applied)"
    by (cases "apply_project_to_managers pm2 (TrackManager 8) (AudioEngine [] [])") auto
  have b: "(1::int) \<le> 2" "(2::int) \<le> 8" by simp_all
  have v: "0 \<le> volume \<lparr>number = 2, is_armed = False, is_muted = True, volume = 0.3,
                          has_data = False, name = ''Track 2''\<rparr>"
          "volume \<lparr>number = 2, is_armed = False, is_muted = True, volume = 0.3,
                   has_data = False, name = ''Track 2''\<rparr> \<le> 1"
          "0 \<le> get_track_volume edited_engine 2" "get_track_volume edited_engine 2 \<le> 1"
    by (simp_all add: edited_sources)
  from project_round_trip [OF s l a b edited_sources(1,2) v]
  have r: "loaded" "applied"
    "\<exists>t'. get_track tm' 2 = Some t' \<and> volume t' = 0.3 \<and> is_muted t' \<and> name t' = ''Track 2''"
    "get_track_fx e' 2 = ''studio''" "get_track_volume e' 2 = 0.4"
    by (simp_all add: edited_sources)
  have l': "load_project ProjectManager fs1 f = (pm2, True)" using l r(1) by simp
  have a': "apply_project_to_managers pm2 (TrackManager 8) (AudioEngine [] []) = (tm', e', True)"
    using a r(2) by simp
  show ?thesis
    by (rule exI [of _ pm1], rule exI [of _ f], rule exI [of _ fs1], rule exI [of _ pm2],
        rule exI [of _ tm'], rule exI [of _ e'], intro conjI)
       (rule s l' a' r(3) r(4) r(5))+
qed


end
